theory Spec2Isabelle
  imports Complex_Main
begin

section \<open>Conventions of the embedding\<close>

text \<open>
  The repository perturbs musical stimuli: symbolic scores (note events) and sampled
  audio. The embedding follows the Python sources function by function.

  \<^item> A Python float and a numpy \<open>float64\<close> are IEEE binary64 numbers. The finite ones are
    the reals \<open>m * 2 ^ e\<close> with \<open>\<bar>m\<bar> < 2 ^ 53\<close> and \<open>-1074 \<le> e \<le> 971\<close>, and an operation
    returns the double nearest to its exact result, \<open>fl\<close> below. Where a claim turns on
    the stored value (the number of notes to randomize, the note times, the SNR
    injector) every operation of the source is followed by this rounding. The transforms
    of audio_pert.py and the statistics of the pitches are followed in exact arithmetic:
    what is claimed of them (lengths, positions, the peak after the division by the
    peak, the clamp of an integer pitch) does not turn on the rounding.
  \<^item> Python integers are \<open>int\<close>; lengths and list positions are \<open>nat\<close>.
  \<^item> A raised exception is the left summand of a result \<open>error + 'a\<close>. numpy does not
    raise when an operation overflows or is undefined: it goes on with \<open>inf\<close> or \<open>nan\<close>.
    No real number stands for these, and the model does not follow them: the
    computation ends with the outcome \<open>NonFinite\<close>, which is not an exception of the
    source and says nothing about the value the source returns.
  \<^item> The generator \<open>np.random\<close> is an explicit tape of real draws that every sampler
    takes and returns. A sampler maps the draws it consumes onto its documented support,
    so every value the library can return is the image of some tape.
\<close>

datatype error = ValueError | IndexError | ZeroDivisionError | OverflowError | NonFinite

definition and_then :: "error + 'a \<Rightarrow> ('a \<Rightarrow> error + 'b) \<Rightarrow> error + 'b" where
  "and_then r f = (case r of Inl e \<Rightarrow> Inl e | Inr x \<Rightarrow> f x)"

text \<open>\<open>int(x)\<close> of a finite float truncates towards zero.\<close>

definition py_int :: "real \<Rightarrow> int" where
  "py_int x = (if 0 \<le> x then \<lfloor>x\<rfloor> else \<lceil>x\<rceil>)"

text \<open>\<open>round(x)\<close> of a float rounds to the nearest integer, a tie to the even one.\<close>

definition py_round :: "real \<Rightarrow> int" where
  "py_round x =
     (let f = \<lfloor>x\<rfloor>; d = x - of_int f
      in if d < 1 / 2 then f else if 1 / 2 < d then f + 1
         else if even f then f else f + 1)"

subsection \<open>Double precision\<close>

text \<open>
  The exponent of the last mantissa bit of the doubles around \<open>x\<close>: 52 below the binary
  exponent of \<open>x\<close>, and -1074 throughout the subnormal range.
\<close>

definition ulp_exp :: "real \<Rightarrow> int" where
  "ulp_exp x = max \<lfloor>log 2 \<bar>x\<bar>\<rfloor> (- 1022) - 52"

text \<open>
  Rounding to the nearest double, a tie to the even mantissa. No exponent is too large
  for \<open>fl\<close>; the range is checked where the source's operation is.
\<close>

definition fl :: "real \<Rightarrow> real" where
  "fl x = of_int (py_round (x / 2 powi ulp_exp x)) * 2 powi ulp_exp x"

text \<open>
  The result of a numpy operation whose exact value is \<open>x\<close>: the nearest double, or \<open>inf\<close>
  when that is beyond the largest double.
\<close>

definition binary64 :: "real \<Rightarrow> error + real" where
  "binary64 x = (if 2 ^ 1024 \<le> \<bar>fl x\<bar> then Inl NonFinite else Inr (fl x))"

text \<open>An operation applied to every entry of an array.\<close>

fun np_array :: "real list \<Rightarrow> error + real list" where
  "np_array [] = Inr []"
| "np_array (x # xs) =
     and_then (binary64 x) (\<lambda>y. and_then (np_array xs) (\<lambda>ys. Inr (y # ys)))"

text \<open>\<open>a / b\<close> on numpy scalars: a zero divisor gives \<open>inf\<close> or \<open>nan\<close>.\<close>

definition np_divide :: "real \<Rightarrow> real \<Rightarrow> error + real" where
  "np_divide a b = (if b = 0 then Inl NonFinite else binary64 (a / b))"

text \<open>
  A float argument of a function: a finite double, an infinity of either sign, or
  \<open>nan\<close>.
\<close>

datatype pyfloat = Finite real | Infinite | NaN

subsection \<open>Peaks\<close>

text \<open>
  \<open>np.max(np.abs(a))\<close>: the largest magnitude of a non-empty array; numpy raises
  \<open>ValueError\<close> for an empty one (the reduction has no identity).
\<close>

definition peak :: "real list \<Rightarrow> real" where
  "peak a = Max (set (map abs a))"

definition np_max_abs :: "real list \<Rightarrow> error + real" where
  "np_max_abs a = (if a = [] then Inl ValueError else Inr (peak a))"

text \<open>
  The peak normalisation that closes the spectral and the temporal transform and that
  the score drivers apply to the synthesised audio:
  \<^verbatim>\<open>max_val = np.max(np.abs(x)); if max_val > 0: x = x / max_val\<close>.
\<close>

definition normalize_peak :: "real list \<Rightarrow> error + real list" where
  "normalize_peak x =
     and_then (np_max_abs x) (\<lambda>max_val.
       Inr (if 0 < max_val then map (\<lambda>v. v / max_val) x else x))"

text \<open>
  What the specification calls a peak-normalised waveform: no sample beyond 1 in
  magnitude, and a peak of exactly 1 unless every sample is zero.
\<close>

definition peak_normalized :: "real list \<Rightarrow> bool" where
  "peak_normalized out \<longleftrightarrow> (\<forall>x \<in> set out. \<bar>x\<bar> \<le> 1) \<and> ((\<exists>x \<in> set out. x \<noteq> 0) \<longrightarrow> peak out = 1)"

subsection \<open>The random generator\<close>

type_synonym rng = "nat \<Rightarrow> real"

definition advance :: "nat \<Rightarrow> rng \<Rightarrow> rng" where
  "advance n g = (\<lambda>i. g (i + n))"

text \<open>The generator's next double of \<open>[0, 1)\<close>: 53 random bits over \<open>2 ^ 53\<close>.\<close>

definition random_sample :: "rng \<Rightarrow> real" where
  "random_sample g = of_int \<lfloor>frac (g 0) * 2 ^ 53\<rfloor> / 2 ^ 53"

text \<open>
  \<open>np.random.uniform(low, high)\<close>: \<open>low + (high - low) * u\<close> in double arithmetic, with
  \<open>u\<close> the next double of \<open>[0, 1)\<close>; numpy raises \<open>OverflowError\<close> when \<open>high - low\<close> is not
  finite.
\<close>

definition uniform :: "real \<Rightarrow> real \<Rightarrow> rng \<Rightarrow> error + (real \<times> rng)" where
  "uniform low high g =
     (let scale = fl (high - low)
      in if 2 ^ 1024 \<le> \<bar>scale\<bar> then Inl OverflowError
         else Inr (fl (low + fl (scale * random_sample g)), advance 1 g))"

text \<open>
  \<open>np.random.randint(low, high)\<close>: an integer of \<open>[low, high)\<close>; \<open>ValueError\<close> when the
  interval is empty.
\<close>

definition randint :: "int \<Rightarrow> int \<Rightarrow> rng \<Rightarrow> error + (int \<times> rng)" where
  "randint low high g =
     (if high \<le> low then Inl ValueError
      else Inr (low + \<lfloor>frac (g 0) * of_int (high - low)\<rfloor>, advance 1 g))"

text \<open>
  \<open>np.random.normal(loc, scale)\<close>: \<open>loc + scale * z\<close> for a standard normal deviate \<open>z\<close>
  (any real); \<open>ValueError\<close> for a negative scale.
\<close>

definition normal :: "real \<Rightarrow> real \<Rightarrow> rng \<Rightarrow> error + (real \<times> rng)" where
  "normal loc scale g =
     (if scale < 0 then Inl ValueError else Inr (loc + scale * g 0, advance 1 g))"

text \<open>
  \<open>colorednoise.powerlaw_psd_gaussian(exponent=1.0, size=n)\<close>: \<open>n\<close> samples determined
  by the generator the library draws from (numpy's global one in the releases 1.x, a
  generator of its own in the releases 2.x). The library divides by the number of
  samples, \<open>ZeroDivisionError\<close> for none, and scales the last entry of the spectrum above
  the zero frequency, which a single sample does not have: \<open>IndexError\<close>.
\<close>

definition powerlaw_psd_gaussian :: "nat \<Rightarrow> rng \<Rightarrow> error + (real list \<times> rng)" where
  "powerlaw_psd_gaussian n g =
     (if n = 0 then Inl ZeroDivisionError
      else if n = 1 then Inl IndexError
      else Inr (map g [0..<n], advance n g))"

section \<open>The SNR-calibrated noise injector (noise_adder.py)\<close>

text \<open>
  \<open>np.mean\<close> adds the entries of an array in an order of numpy's own (pairwise, in
  blocks). The order is a parameter of the model: a tree whose leaves are positions of
  the array and whose inner nodes are the additions, each rounded.
\<close>

datatype sum_tree = Leaf nat | Node sum_tree sum_tree

fun add_reduce :: "sum_tree \<Rightarrow> real list \<Rightarrow> error + real" where
  "add_reduce (Leaf i) xs = Inr (if i < length xs then xs ! i else 0)"
| "add_reduce (Node l r) xs =
     and_then (add_reduce l xs) (\<lambda>a. and_then (add_reduce r xs) (\<lambda>b. binary64 (a + b)))"

text \<open>The positions a tree adds up, from left to right.\<close>

fun leaves :: "sum_tree \<Rightarrow> nat list" where
  "leaves (Leaf i) = [i]"
| "leaves (Node l r) = leaves l @ leaves r"

text \<open>An order for every length: the tree for \<open>n\<close> entries adds each of them once.\<close>

definition summation_order :: "(nat \<Rightarrow> sum_tree) \<Rightarrow> bool" where
  "summation_order order \<longleftrightarrow>
     (\<forall>n > 0. distinct (leaves (order n)) \<and> set (leaves (order n)) = {0..<n})"

text \<open>The order of a plain loop, numpy's own for fewer than eight entries.\<close>

fun in_sequence :: "nat \<Rightarrow> sum_tree" where
  "in_sequence 0 = Leaf 0"
| "in_sequence (Suc 0) = Leaf 0"
| "in_sequence (Suc (Suc n)) = Node (in_sequence (Suc n)) (Leaf (Suc n))"

text \<open>
  \<open>calculate_power\<close>: \<open>np.mean(signal ** 2)\<close>, the squares added in the given order and
  the sum divided by the length; the mean of no entry is \<open>nan\<close>.
\<close>

definition calculate_power :: "(nat \<Rightarrow> sum_tree) \<Rightarrow> real list \<Rightarrow> error + real" where
  "calculate_power order signal =
     and_then (np_array (map (\<lambda>x. x * x) signal)) (\<lambda>squares.
       and_then (add_reduce (order (length squares)) squares) (\<lambda>total.
         if signal = [] then Inl NonFinite else binary64 (total / real (length signal))))"

text \<open>
  \<open>10 ** x\<close> for a Python float \<open>x\<close>: the double nearest to the power; Python raises
  \<open>OverflowError\<close> when the power is beyond the largest double, and returns the rounded
  power, zero included, when it underflows.
\<close>

definition py_pow10 :: "real \<Rightarrow> error + real" where
  "py_pow10 x = (if 2 ^ 1024 \<le> fl (10 powr x) then Inl OverflowError else Inr (fl (10 powr x)))"

text \<open>
  Lines 24 to 35 of \<open>add_noise_with_snr\<close>, for the value \<open>ratio\<close> of
  \<open>10 ** (desired_snr_db / 10)\<close>: the generated noise scaled to the desired power.
  Neither quotient is guarded by the source.
\<close>

definition scaled_noise ::
  "(nat \<Rightarrow> sum_tree) \<Rightarrow> real list \<Rightarrow> real list \<Rightarrow> real \<Rightarrow> error + real list" where
  "scaled_noise order signal noise ratio =
     and_then (calculate_power order signal) (\<lambda>signal_power.
       and_then (np_divide signal_power ratio) (\<lambda>desired_noise_power.
         and_then (calculate_power order noise) (\<lambda>current_noise_power.
           and_then (np_divide desired_noise_power current_noise_power) (\<lambda>quotient.
             let scaling_factor = fl (sqrt quotient)
             in np_array (map (\<lambda>x. x * scaling_factor) noise)))))"

text \<open>
  Lines 24 to 38 of \<open>add_noise_with_snr\<close>: the sum of the signal and the scaled noise.
  An exception ends the call whatever was computed before it, so the two steps that can
  raise, the noise generator and the power of ten, come first.
\<close>

definition noisy_signal ::
  "(nat \<Rightarrow> sum_tree) \<Rightarrow> real list \<Rightarrow> real \<Rightarrow> rng \<Rightarrow> error + (real list \<times> rng)" where
  "noisy_signal order signal desired_snr_db g =
     and_then (powerlaw_psd_gaussian (length signal) g) (\<lambda>(noise, g').
       and_then (py_pow10 (fl (desired_snr_db / 10))) (\<lambda>ratio.
         and_then (scaled_noise order signal noise ratio) (\<lambda>scaled.
           and_then (np_array (map2 (+) signal scaled)) (\<lambda>noisy. Inr (noisy, g')))))"

text \<open>
  \<open>add_noise_with_snr\<close>: the sum is rescaled by its peak only when the peak exceeds 1.
\<close>

definition add_noise_with_snr ::
  "(nat \<Rightarrow> sum_tree) \<Rightarrow> real list \<Rightarrow> real \<Rightarrow> rng \<Rightarrow> error + (real list \<times> rng)" where
  "add_noise_with_snr order signal desired_snr_db g =
     and_then (noisy_signal order signal desired_snr_db g) (\<lambda>(noisy, g').
       let max_val = peak noisy
       in Inr (if 1 < max_val then map (\<lambda>x. fl (x / max_val)) noisy else noisy, g'))"

section \<open>The temporal frame-jitter transform (audio_pert.py)\<close>

text \<open>
  Python slices. An endpoint counts from the end when negative and is cut to the
  length of the list; \<open>xs[a:b]\<close> is empty when the resolved \<open>b\<close> is not beyond \<open>a\<close>.
\<close>

definition slice_bound :: "nat \<Rightarrow> int \<Rightarrow> nat" where
  "slice_bound n a = (if a < 0 then nat (max (a + int n) 0) else min (nat a) n)"

definition py_slice :: "'a list \<Rightarrow> int \<Rightarrow> int \<Rightarrow> 'a list" where
  "py_slice xs a b =
     (let a' = slice_bound (length xs) a; b' = slice_bound (length xs) b
      in take (b' - a') (drop a' xs))"

definition py_slice_from :: "'a list \<Rightarrow> int \<Rightarrow> 'a list" where
  "py_slice_from xs a = drop (slice_bound (length xs) a) xs"

definition py_slice_to :: "'a list \<Rightarrow> int \<Rightarrow> 'a list" where
  "py_slice_to xs b = take (slice_bound (length xs) b) xs"

text \<open>
  \<open>out[a:b] += frame\<close> on numpy arrays: the frame is added onto the slice when their
  lengths agree, a one-element frame is broadcast over the slice, and any other frame
  raises \<open>ValueError\<close>.
\<close>

definition slice_add :: "real list \<Rightarrow> int \<Rightarrow> int \<Rightarrow> real list \<Rightarrow> error + real list" where
  "slice_add out a b frame =
     (let a' = slice_bound (length out) a; b' = slice_bound (length out) b; w = b' - a'
      in if length frame = w
         then Inr (take a' out @ map2 (+) (take w (drop a' out)) frame @ drop (a' + w) out)
         else if length frame = 1
         then Inr (take a' out @ map (\<lambda>x. x + hd frame) (take w (drop a' out))
                     @ drop (a' + w) out)
         else Inl ValueError)"

text \<open>Lines 83 to 87 of \<open>add_time_domain_jitter\<close>: the frame length and the largest shift.\<close>

definition frame_length_samples :: "int \<Rightarrow> int" where
  "frame_length_samples sr = py_int (of_int sr * 10 / 1000)"

definition max_shift_samples :: "real \<Rightarrow> int \<Rightarrow> int" where
  "max_shift_samples noise_level sr = py_int (of_int sr * (10 * noise_level) / 1000)"

text \<open>
  Lines 93 to 108: frame \<open>i\<close> of the signal, moved by \<open>shift\<close> and clipped where it
  leaves the buffer. The result is the clipped frame with the bounds of the slice of the
  output that it is added to.
\<close>

definition place_frame :: "real list \<Rightarrow> int \<Rightarrow> nat \<Rightarrow> int \<Rightarrow> real list \<times> int \<times> int" where
  "place_frame signal frame_len i shift =
     (let start = int i * frame_len;
          end_i = start + frame_len;
          frame = py_slice signal start end_i;
          shifted_start = start + shift;
          shifted_end = shifted_start + int (length frame);
          (frame1, shifted_start1) =
            (if shifted_start < 0 then (py_slice_from frame (- shifted_start), 0)
             else (frame, shifted_start));
          (frame2, shifted_end1) =
            (if int (length signal) < shifted_end
             then (py_slice_to frame1 (int (length signal) - shifted_start1),
                   int (length signal))
             else (frame1, shifted_end))
      in (frame2, shifted_start1, shifted_end1))"

text \<open>
  Lines 92 to 111, the loop over the frames: one shift drawn from
  \<open>[-max_shift, max_shift]\<close> per frame, the shifted frame added into the output buffer.
\<close>

fun jitter_frames ::
  "real list \<Rightarrow> int \<Rightarrow> int \<Rightarrow> nat list \<Rightarrow> real list \<Rightarrow> rng \<Rightarrow> error + (real list \<times> rng)" where
  "jitter_frames signal frame_len max_shift [] out g = Inr (out, g)"
| "jitter_frames signal frame_len max_shift (i # frames) out g =
     and_then (randint (- max_shift) (max_shift + 1) g) (\<lambda>(shift, g').
       case place_frame signal frame_len i shift of
         (frame, shifted_start, shifted_end) \<Rightarrow>
           and_then (slice_add out shifted_start shifted_end frame) (\<lambda>out'.
             jitter_frames signal frame_len max_shift frames out' g'))"

text \<open>
  \<open>add_time_domain_jitter\<close>. The floor division by a frame length of zero raises
  \<open>ZeroDivisionError\<close>; the buffer is peak-normalised last.
\<close>

definition add_time_domain_jitter ::
  "real list \<Rightarrow> real \<Rightarrow> int \<Rightarrow> rng \<Rightarrow> error + (real list \<times> rng)" where
  "add_time_domain_jitter signal noise_level sr g =
     (let frame_len = frame_length_samples sr;
          max_shift = max_shift_samples noise_level sr
      in if frame_len = 0 then Inl ZeroDivisionError
         else let num_frames = int (length signal) div frame_len;
                  output_signal = replicate (length signal) 0
              in and_then
                   (jitter_frames signal frame_len max_shift [0..<nat num_frames]
                      output_signal g)
                   (\<lambda>(out, g'). and_then (normalize_peak out) (\<lambda>normalized.
                      Inr (normalized, g'))))"

section \<open>The spectral perturbation transform (audio_pert.py)\<close>

text \<open>
  \<open>librosa.stft\<close> and \<open>librosa.istft\<close> are library code: the transform takes them as
  the parameters \<open>stft\<close> (window 2048, hop 512) and \<open>istft\<close> (hop 512, the result cut or
  padded to the given length). A spectrogram is a matrix of complex cells, a list of
  rows. \<open>np.abs\<close> of a cell is \<open>cmod\<close>, \<open>np.angle\<close> is \<open>Arg\<close>, and
  \<open>m * np.exp(1j * p)\<close> is \<open>of_real m * cis p\<close>.
\<close>

type_synonym spectrogram = "complex list list"

text \<open>\<open>np.max\<close> of a matrix: the largest cell, \<open>ValueError\<close> when there is none.\<close>

definition np_max :: "real list list \<Rightarrow> error + real" where
  "np_max a = (if concat a = [] then Inl ValueError else Inr (Max (set (concat a))))"

text \<open>
  \<open>np.random.rand(*shape)\<close>: one draw of \<open>[0, 1)\<close> for every cell, row by row. The shape
  is given by the lengths of the rows.
\<close>

fun unit_draws :: "nat list \<Rightarrow> rng \<Rightarrow> real list list \<times> rng" where
  "unit_draws [] g = ([], g)"
| "unit_draws (n # shape) g =
     (let (rows, g') = unit_draws shape (advance n g)
      in (map (\<lambda>i. frac (g i)) [0..<n] # rows, g'))"

text \<open>\<open>np.random.uniform(low, high, size=shape)\<close>.\<close>

definition uniform_field :: "real \<Rightarrow> real \<Rightarrow> nat list \<Rightarrow> rng \<Rightarrow> real list list \<times> rng" where
  "uniform_field low high shape g =
     (let (u, g') = unit_draws shape g
      in (map (map (\<lambda>v. low + (high - low) * v)) u, g'))"

definition cellwise :: "('a \<Rightarrow> 'b \<Rightarrow> 'c) \<Rightarrow> 'a list list \<Rightarrow> 'b list list \<Rightarrow> 'c list list" where
  "cellwise f a b = map2 (map2 f) a b"

text \<open>\<open>add_noise_in_frequency_domain\<close>: magnitude and phase blended with random fields.\<close>

definition add_noise_in_frequency_domain ::
  "(real list \<Rightarrow> error + spectrogram) \<Rightarrow> (spectrogram \<Rightarrow> nat \<Rightarrow> error + real list) \<Rightarrow>
   real list \<Rightarrow> real \<Rightarrow> rng \<Rightarrow> error + (real list \<times> rng)" where
  "add_noise_in_frequency_domain stft istft signal noise_level g =
     and_then (stft signal) (\<lambda>D.
       let magnitude = map (map cmod) D;
           phase = map (map Arg) D;
           shape = map length D
       in and_then (np_max magnitude) (\<lambda>max_magnitude.
            let (u, g1) = unit_draws shape g;
                random_magnitude = map (map (\<lambda>v. v * max_magnitude)) u;
                (random_phase, g2) = uniform_field (- pi) pi shape g1;
                noisy_magnitude =
                  cellwise (\<lambda>m r. (1 - noise_level) * m + noise_level * r)
                    magnitude random_magnitude;
                noisy_phase =
                  cellwise (\<lambda>p r. (1 - noise_level) * p + noise_level * r)
                    phase random_phase;
                D_noisy = cellwise (\<lambda>m p. of_real m * cis p) noisy_magnitude noisy_phase
            in and_then (istft D_noisy (length signal)) (\<lambda>noisy_signal.
                 and_then (normalize_peak noisy_signal) (\<lambda>normalized.
                   Inr (normalized, g2)))))"

text \<open>\<open>add_phase_jitter\<close>: the magnitude kept, uniform noise added to the phase.\<close>

definition add_phase_jitter ::
  "(real list \<Rightarrow> error + spectrogram) \<Rightarrow> (spectrogram \<Rightarrow> nat \<Rightarrow> error + real list) \<Rightarrow>
   real list \<Rightarrow> real \<Rightarrow> rng \<Rightarrow> error + (real list \<times> rng)" where
  "add_phase_jitter stft istft signal noise_level g =
     and_then (stft signal) (\<lambda>D.
       let magnitude = map (map cmod) D;
           phase = map (map Arg) D;
           max_phase_noise = pi * 2 * noise_level;
           (phase_noise, g1) =
             uniform_field (- max_phase_noise) max_phase_noise (map length D) g;
           noisy_phase = cellwise (+) phase phase_noise;
           D_noisy = cellwise (\<lambda>m p. of_real m * cis p) magnitude noisy_phase
       in and_then (istft D_noisy (length signal)) (\<lambda>noisy_signal.
            and_then (normalize_peak noisy_signal) (\<lambda>normalized.
              Inr (normalized, g1))))"

section \<open>The symbolic score and its randomizer (mus_const_pert.py)\<close>

text \<open>
  A \<open>pretty_midi.Note\<close> has a velocity, a pitch, a start and an end time (the field
  \<open>end\<close>, here \<open>end_t\<close>); an \<open>Instrument\<close> has a program number, a drum flag and its list
  of notes (the field \<open>notes\<close>, here \<open>note_list\<close>); the score, a \<open>PrettyMIDI\<close> object, is
  the list of its instruments.
\<close>

record note_event =
  velocity :: int
  pitch :: int
  start :: real
  end_t :: real

record instrument =
  program :: int
  is_drum :: bool
  note_list :: "note_event list"

type_synonym pretty_midi = "instrument list"

subsection \<open>Sampling without replacement\<close>

text \<open>
  \<open>np.random.permutation(n)\<close>: the numbers below \<open>n\<close> in a drawn order. Each draw picks
  one of the numbers that are left.
\<close>

fun draw_permutation :: "nat \<Rightarrow> nat list \<Rightarrow> rng \<Rightarrow> nat list" where
  "draw_permutation 0 pool g = []"
| "draw_permutation (Suc k) pool g =
     (if pool = [] then []
      else let j = nat \<lfloor>frac (g 0) * real (length pool)\<rfloor>
           in pool ! j # draw_permutation k (take j pool @ drop (Suc j) pool) (advance 1 g))"

definition permutation :: "nat \<Rightarrow> rng \<Rightarrow> nat list \<times> rng" where
  "permutation n g = (draw_permutation n [0..<n] g, advance n g)"

text \<open>
  \<open>np.random.choice(a, n_samples, replace=False)\<close> for an integer \<open>a\<close>: the first
  \<open>n_samples\<close> entries of a permutation of the numbers below \<open>a\<close>. numpy raises
  \<open>ValueError\<close> for a sample larger than the population and for a negative size.
\<close>

definition choice :: "nat \<Rightarrow> int \<Rightarrow> rng \<Rightarrow> error + (nat list \<times> rng)" where
  "choice a n_samples g =
     (if int a < n_samples then Inl ValueError
      else if n_samples < 0 then Inl ValueError
      else let (perm, g') = permutation a g in Inr (take (nat n_samples) perm, g'))"

subsection \<open>\<open>get_pitch_range\<close> and the statistics of a track\<close>

definition get_pitch_range :: "instrument \<Rightarrow> int \<Rightarrow> int \<times> int" where
  "get_pitch_range ins padding =
     (if note_list ins = [] then (21, 108)
      else let pitches = map pitch (note_list ins);
               min_pitch = max 21 (Min (set pitches) - padding);
               max_pitch = min 108 (Max (set pitches) + padding)
           in (min_pitch, max_pitch))"

definition np_mean :: "real list \<Rightarrow> real" where
  "np_mean xs = sum_list xs / real (length xs)"

text \<open>\<open>np.std\<close>: the population standard deviation.\<close>

definition np_std :: "real list \<Rightarrow> real" where
  "np_std xs = sqrt (np_mean (map (\<lambda>x. (x - np_mean xs) ^ 2) xs))"

subsection \<open>\<open>randomize_midi\<close>\<close>

text \<open>
  Line 38: \<open>int(noise_level * num_notes)\<close> for a finite noise level. The product is a
  double; \<open>int\<close> of a product that overflowed to \<open>inf\<close> raises \<open>OverflowError\<close>.
\<close>

definition num_notes_to_randomize :: "real \<Rightarrow> nat \<Rightarrow> error + int" where
  "num_notes_to_randomize noise_level num_notes =
     (let product = fl (noise_level * real num_notes)
      in if 2 ^ 1024 \<le> \<bar>product\<bar> then Inl OverflowError else Inr (py_int product))"

text \<open>Lines 41 to 43: the three index arrays, drawn one after the other.\<close>

definition select_indices ::
  "nat \<Rightarrow> int \<Rightarrow> rng \<Rightarrow> error + ((nat list \<times> nat list \<times> nat list) \<times> rng)" where
  "select_indices num_notes k g =
     and_then (choice num_notes k g) (\<lambda>(indices_pitch, g1).
       and_then (choice num_notes k g1) (\<lambda>(indices_timing, g2).
         and_then (choice num_notes k g2) (\<lambda>(indices_duration, g3).
           Inr ((indices_pitch, indices_timing, indices_duration), g3))))"

text \<open>
  Lines 51 to 65, the pitch loop. With \<open>preserve_range\<close> the new pitch is a rounded
  normal draw around the note's pitch, clamped by \<open>max(min_pitch, min(max_pitch, .))\<close>;
  without it the new pitch is uniform over \<open>[min_pitch, max_pitch]\<close>. A position outside
  the list raises \<open>IndexError\<close>.
\<close>

fun randomize_pitches ::
  "bool \<Rightarrow> int \<Rightarrow> int \<Rightarrow> real \<Rightarrow> nat list \<Rightarrow> note_event list \<Rightarrow> rng \<Rightarrow> error + (note_event list \<times> rng)"
  where
  "randomize_pitches preserve_range min_pitch max_pitch scale [] ns g = Inr (ns, g)"
| "randomize_pitches preserve_range min_pitch max_pitch scale (idx # idxs) ns g =
     (if length ns \<le> idx then Inl IndexError
      else and_then
             (if preserve_range
              then and_then (normal (of_int (pitch (ns ! idx))) scale g) (\<lambda>(x, g').
                     Inr (max min_pitch (min max_pitch (py_round x)), g'))
              else randint min_pitch (max_pitch + 1) g)
             (\<lambda>(new_pitch, g').
                randomize_pitches preserve_range min_pitch max_pitch scale idxs
                  (ns[idx := (ns ! idx)\<lparr>pitch := new_pitch\<rparr>]) g'))"

text \<open>
  Lines 68 to 77, the onset loop: the note is moved by a uniform shift, its start
  floored at 0, and its end set to the new start plus the duration it had.
\<close>

fun randomize_starts ::
  "real \<Rightarrow> nat list \<Rightarrow> note_event list \<Rightarrow> rng \<Rightarrow> error + (note_event list \<times> rng)" where
  "randomize_starts max_shift [] ns g = Inr (ns, g)"
| "randomize_starts max_shift (idx # idxs) ns g =
     (if length ns \<le> idx then Inl IndexError
      else let original_note = ns ! idx
           in and_then (uniform (- max_shift) max_shift g) (\<lambda>(shift, g').
                and_then (binary64 (start original_note + shift)) (\<lambda>shifted.
                  let new_start = max 0 shifted
                  in and_then (binary64 (end_t original_note - start original_note))
                       (\<lambda>duration.
                          and_then (binary64 (new_start + duration)) (\<lambda>new_end.
                            randomize_starts max_shift idxs
                              (ns[idx := original_note\<lparr>start := new_start, end_t := new_end\<rparr>])
                              g')))))"

text \<open>
  Lines 80 to 86, the duration loop: the duration is changed by a uniform amount and
  floored at the double \<open>0.1\<close>; the start stays, and the end is the start plus the new
  duration.
\<close>

fun randomize_durations ::
  "real \<Rightarrow> nat list \<Rightarrow> note_event list \<Rightarrow> rng \<Rightarrow> error + (note_event list \<times> rng)" where
  "randomize_durations max_change [] ns g = Inr (ns, g)"
| "randomize_durations max_change (idx # idxs) ns g =
     (if length ns \<le> idx then Inl IndexError
      else let original_note = ns ! idx
           in and_then (uniform (- max_change) max_change g) (\<lambda>(change, g').
                and_then (binary64 (end_t original_note - start original_note)) (\<lambda>duration.
                  and_then (binary64 (duration + change)) (\<lambda>changed.
                    let new_duration = max (fl (1 / 10)) changed
                    in and_then (binary64 (start original_note + new_duration)) (\<lambda>new_end.
                         randomize_durations max_change idxs
                           (ns[idx := original_note\<lparr>end_t := new_end\<rparr>]) g')))))"

text \<open>
  Lines 27 to 86, the body of the loop over the instruments, for a finite noise level.
  An instrument without notes is skipped. The notes are mutated in place; the model
  returns the new list.
\<close>

definition randomize_instrument ::
  "real \<Rightarrow> bool \<Rightarrow> instrument \<Rightarrow> rng \<Rightarrow> error + (instrument \<times> rng)" where
  "randomize_instrument noise_level preserve_range ins g =
     (let num_notes = length (note_list ins)
      in if num_notes = 0 then Inr (ins, g)
         else let (min_pitch, max_pitch) =
                    (if preserve_range then get_pitch_range ins 12 else (21, 108))
              in and_then (num_notes_to_randomize noise_level num_notes) (\<lambda>k.
                   and_then (select_indices num_notes k g)
                     (\<lambda>((indices_pitch, indices_timing, indices_duration), g3).
                        let original_pitches = map pitch (note_list ins);
                            pitch_std = np_std (map of_int original_pitches)
                        in and_then
                             (randomize_pitches preserve_range min_pitch max_pitch
                                (pitch_std * noise_level) indices_pitch (note_list ins) g3)
                             (\<lambda>(ns1, g4).
                                and_then
                                  (randomize_starts (fl (0.5 * noise_level)) indices_timing
                                     ns1 g4)
                                  (\<lambda>(ns2, g5).
                                     and_then
                                       (randomize_durations (fl (0.5 * noise_level))
                                          indices_duration ns2 g5)
                                       (\<lambda>(ns3, g6). Inr (ins\<lparr>note_list := ns3\<rparr>, g6)))))))"

text \<open>
  \<open>for instrument in pm.instruments\<close>: the body applied to the instruments one after
  the other, the first exception ending the call.
\<close>

fun for_each_instrument ::
  "(instrument \<Rightarrow> rng \<Rightarrow> error + (instrument \<times> rng)) \<Rightarrow> instrument list \<Rightarrow> rng \<Rightarrow>
   error + (instrument list \<times> rng)" where
  "for_each_instrument body [] g = Inr ([], g)"
| "for_each_instrument body (ins # rest) g =
     and_then (body ins g) (\<lambda>(ins', g').
       and_then (for_each_instrument body rest g') (\<lambda>(rest', g'').
         Inr (ins' # rest', g'')))"

subsection \<open>The simpler randomizers (musical_pert_comb.py, musical_pert.py)\<close>

text \<open>
  \<open>randomize_midi\<close> of musical_pert_comb.py, lines 18 to 59: the same three loops with
  the pitch uniform over \<open>[21, 108]\<close> (\<open>np.random.randint(21, 109)\<close>) and the shift and
  the change of duration within a fixed half second.
\<close>

definition randomize_instrument_comb ::
  "real \<Rightarrow> instrument \<Rightarrow> rng \<Rightarrow> error + (instrument \<times> rng)" where
  "randomize_instrument_comb noise_level ins g =
     (let num_notes = length (note_list ins)
      in if num_notes = 0 then Inr (ins, g)
         else and_then (num_notes_to_randomize noise_level num_notes) (\<lambda>k.
                and_then (select_indices num_notes k g)
                  (\<lambda>((indices_pitch, indices_timing, indices_duration), g3).
                     and_then (randomize_pitches False 21 108 0 indices_pitch (note_list ins) g3)
                       (\<lambda>(ns1, g4).
                          and_then (randomize_starts 0.5 indices_timing ns1 g4)
                            (\<lambda>(ns2, g5).
                               and_then (randomize_durations 0.5 indices_duration ns2 g5)
                                 (\<lambda>(ns3, g6). Inr (ins\<lparr>note_list := ns3\<rparr>, g6)))))))"

text \<open>
  \<open>randomize_midi_notes\<close> of musical_pert.py, lines 18 to 28: one index array and the
  pitch loop only; an instrument without notes is not skipped.
\<close>

definition randomize_instrument_notes ::
  "real \<Rightarrow> instrument \<Rightarrow> rng \<Rightarrow> error + (instrument \<times> rng)" where
  "randomize_instrument_notes noise_level ins g =
     (let num_notes = length (note_list ins)
      in and_then (num_notes_to_randomize noise_level num_notes) (\<lambda>k.
           and_then (choice num_notes k g) (\<lambda>(indices, g1).
             and_then (randomize_pitches False 21 108 0 indices (note_list ins) g1)
               (\<lambda>(ns1, g2). Inr (ins\<lparr>note_list := ns1\<rparr>, g2)))))"

text \<open>
  The body of the loop for a noise level that is not finite. The first statement that
  uses the level is \<open>int(noise_level * num_notes)\<close>: the product is \<open>nan\<close> for the level
  \<open>nan\<close> and for an infinite level times no note, and is infinite otherwise; \<open>int\<close> raises
  \<open>ValueError\<close> for \<open>nan\<close> and \<open>OverflowError\<close> for an infinity. The flag says whether an
  instrument without notes is skipped before that statement.
\<close>

definition int_of_product_raises ::
  "bool \<Rightarrow> pyfloat \<Rightarrow> instrument \<Rightarrow> rng \<Rightarrow> error + (instrument \<times> rng)" where
  "int_of_product_raises skip_empty level ins g =
     (if note_list ins = [] then (if skip_empty then Inr (ins, g) else Inl ValueError)
      else if level = Infinite then Inl OverflowError else Inl ValueError)"

subsection \<open>Score objects and the batch drivers\<close>

text \<open>
  The randomizers mutate the \<open>PrettyMIDI\<close> object they are given and return that same
  object. Objects live in a heap, addressed by references; \<open>copy.deepcopy\<close> allocates a
  new object with the same content. When an exception ends a call the model keeps the
  exception only: the driver's handler abandons the file and the objects with it.
\<close>

record heap =
  objs :: "nat \<Rightarrow> pretty_midi"
  next_ref :: nat

definition deepcopy :: "heap \<Rightarrow> nat \<Rightarrow> heap \<times> nat" where
  "deepcopy h r =
     (h\<lparr>objs := (objs h)(next_ref h := objs h r), next_ref := Suc (next_ref h)\<rparr>, next_ref h)"

definition mutate_score ::
  "(instrument \<Rightarrow> rng \<Rightarrow> error + (instrument \<times> rng)) \<Rightarrow> heap \<Rightarrow> nat \<Rightarrow> rng \<Rightarrow>
   error + (heap \<times> nat \<times> rng)" where
  "mutate_score body h pm g =
     and_then (for_each_instrument body (objs h pm) g) (\<lambda>(instruments', g').
       Inr (h\<lparr>objs := (objs h)(pm := instruments')\<rparr>, pm, g'))"

text \<open>\<open>randomize_midi(pm, noise_level, preserve_range)\<close> of mus_const_pert.py.\<close>

definition randomize_midi ::
  "heap \<Rightarrow> nat \<Rightarrow> pyfloat \<Rightarrow> bool \<Rightarrow> rng \<Rightarrow> error + (heap \<times> nat \<times> rng)" where
  "randomize_midi h pm level preserve_range g =
     (case level of
        Finite noise_level \<Rightarrow> mutate_score (randomize_instrument noise_level preserve_range) h pm g
      | _ \<Rightarrow> mutate_score (int_of_product_raises True level) h pm g)"

text \<open>\<open>randomize_midi(pm, noise_level)\<close> of musical_pert_comb.py.\<close>

definition randomize_midi_comb ::
  "heap \<Rightarrow> nat \<Rightarrow> pyfloat \<Rightarrow> rng \<Rightarrow> error + (heap \<times> nat \<times> rng)" where
  "randomize_midi_comb h pm level g =
     (case level of
        Finite noise_level \<Rightarrow> mutate_score (randomize_instrument_comb noise_level) h pm g
      | _ \<Rightarrow> mutate_score (int_of_product_raises True level) h pm g)"

text \<open>\<open>randomize_midi_notes(pm, noise_level)\<close> of musical_pert.py.\<close>

definition randomize_midi_notes ::
  "heap \<Rightarrow> nat \<Rightarrow> pyfloat \<Rightarrow> rng \<Rightarrow> error + (heap \<times> nat \<times> rng)" where
  "randomize_midi_notes h pm level g =
     (case level of
        Finite noise_level \<Rightarrow> mutate_score (randomize_instrument_notes noise_level) h pm g
      | _ \<Rightarrow> mutate_score (int_of_product_raises False level) h pm g)"

text \<open>
  The clip of the score drivers (mus_const_pert.py, lines 140 to 151): a centred cut
  when the audio is longer than the clip, zero padding on both sides otherwise.
\<close>

definition clip_audio :: "real list \<Rightarrow> int \<Rightarrow> real list" where
  "clip_audio y clip_samples =
     (let total_samples = int (length y)
      in if clip_samples < total_samples
         then let start_idx = (total_samples - clip_samples) div 2;
                  end_idx = start_idx + clip_samples
              in py_slice y start_idx end_idx
         else let padding = clip_samples - total_samples;
                  pad_left = padding div 2;
                  pad_right = padding - pad_left
              in replicate (nat pad_left) 0 @ y @ replicate (nat pad_right) 0)"

text \<open>
  One pass of the loop over the noise levels in \<open>process_midi_files\<close> of
  mus_const_pert.py (lines 122 to 151) and of musical_pert_comb.py (lines 90 to 124),
  up to the audio that is written. The noise level is the double
  \<open>noise_percent / 100.0\<close>. The two drivers differ in the randomizer they call, the
  parameter \<open>randomize\<close>; \<open>pm.synthesize\<close> is library code, the parameter \<open>synthesize\<close>.
  At noise level 0 the original object itself is synthesised; otherwise a deep copy is
  randomized.
\<close>

definition score_noise_step ::
  "(heap \<Rightarrow> nat \<Rightarrow> pyfloat \<Rightarrow> rng \<Rightarrow> error + (heap \<times> nat \<times> rng)) \<Rightarrow>
   (pretty_midi \<Rightarrow> real list) \<Rightarrow> real \<Rightarrow> heap \<Rightarrow> nat \<Rightarrow> real \<Rightarrow> rng \<Rightarrow>
   error + (heap \<times> nat \<times> real list \<times> rng)" where
  "score_noise_step randomize synthesize clip_duration h pm_original noise_percent g =
     (let noise_level = fl (noise_percent / 100)
      in and_then
           (if noise_level = 0 then Inr (h, pm_original, g)
            else let (h1, pm_copy) = deepcopy h pm_original
                 in randomize h1 pm_copy (Finite noise_level) g)
           (\<lambda>(h2, pm_noisy, g').
              let y_noisy = synthesize (objs h2 pm_noisy)
              in and_then (normalize_peak y_noisy) (\<lambda>normalized.
                   Inr (h2, pm_noisy,
                        clip_audio normalized (py_int (clip_duration * 44100)), g'))))"

text \<open>
  One pass of the loop over the noise levels in \<open>process_midi_files\<close> of audio_pert.py
  (lines 146 to 158), for the audio \<open>y\<close> of line 143. Neither division by the peak is
  guarded: a silent signal yields \<open>nan\<close> samples, and \<open>np.max\<close> of an empty signal raises.
\<close>

definition divide_by_peak :: "real list \<Rightarrow> error + real list" where
  "divide_by_peak y =
     and_then (np_max_abs y) (\<lambda>max_val.
       if max_val = 0 then Inl NonFinite else Inr (map (\<lambda>v. v / max_val) y))"

definition jitter_noise_step ::
  "real list \<Rightarrow> int \<Rightarrow> real \<Rightarrow> rng \<Rightarrow> error + (real list \<times> rng)" where
  "jitter_noise_step y sr noise_percent g =
     (let noise_level = noise_percent / 100
      in and_then
           (if noise_level = 0 then Inr (y, g)
            else add_time_domain_jitter y noise_level sr g)
           (\<lambda>(y_noisy, g'). and_then (divide_by_peak y_noisy) (\<lambda>normalized.
              Inr (normalized, g'))))"

text \<open>
  One pass of the loop over the noise levels in \<open>process_midi_files\<close> of noise_adder.py
  (lines 76 to 82): the percentage is mapped linearly onto a target SNR, 40 dB at 0 and
  -20 dB at 100, and the injector is called for every percentage.
\<close>

definition snr_noise_step ::
  "(nat \<Rightarrow> sum_tree) \<Rightarrow> real list \<Rightarrow> real \<Rightarrow> rng \<Rightarrow> error + (real list \<times> rng)" where
  "snr_noise_step order y noise_percent g =
     (let max_snr = 40; min_snr = - 20;
          snr_db = fl (max_snr - fl (fl (noise_percent / 100) * (max_snr - min_snr)))
      in add_noise_with_snr order y snr_db g)"

subsection \<open>Example inputs\<close>

text \<open>Two states of the generator.\<close>

definition tape_a :: rng where
  "tape_a = (\<lambda>i. if i = 0 then 0 else 1 / 2)"

definition tape_b :: rng where
  "tape_b = (\<lambda>i. if i = 0 then 1 / 2 else 0)"

section \<open>Properties of the double rounding\<close>

lemma py_round_of_int: "py_round (of_int k) = k"
  by (simp add: py_round_def)

lemma py_round_range: "py_round x = \<lfloor>x\<rfloor> \<or> py_round x = \<lfloor>x\<rfloor> + 1"
  by (simp add: py_round_def Let_def)

lemma py_round_error: "\<bar>of_int (py_round x) - x\<bar> \<le> 1 / 2"
proof -
  have a: "of_int \<lfloor>x\<rfloor> \<le> x" and b: "x < of_int \<lfloor>x\<rfloor> + 1" by linarith+
  show ?thesis
    unfolding py_round_def Let_def using a b by (simp add: abs_if) linarith
qed

lemma py_round_mono:
  assumes "x \<le> y"
  shows "py_round x \<le> py_round y"
proof (cases "\<lfloor>x\<rfloor> = \<lfloor>y\<rfloor>")
  case True
  then show ?thesis using assms by (auto simp: py_round_def Let_def)
next
  case False
  then have "\<lfloor>x\<rfloor> + 1 \<le> \<lfloor>y\<rfloor>" using assms floor_mono [of x y] by linarith
  moreover have "py_round x \<le> \<lfloor>x\<rfloor> + 1" using py_round_range [of x] by linarith
  moreover have "\<lfloor>y\<rfloor> \<le> py_round y" using py_round_range [of y] by linarith
  ultimately show ?thesis by linarith
qed

lemma py_round_minus: "py_round (- x) = - py_round x"
proof (cases "x = of_int \<lfloor>x\<rfloor>")
  case True
  then obtain k where "x = of_int k" by metis
  then have "- x = of_int (- k)" by simp
  then show ?thesis using \<open>x = of_int k\<close> py_round_of_int by metis
next
  case False
  then have lt: "of_int \<lfloor>x\<rfloor> < x" by linarith
  have "x < of_int \<lfloor>x\<rfloor> + 1" by linarith
  then have fl: "\<lfloor>- x\<rfloor> = - \<lfloor>x\<rfloor> - 1" using lt by linarith
  show ?thesis
    unfolding py_round_def Let_def fl using lt by (auto simp: algebra_simps)
qed

lemma two_powi_pos [simp]: "0 < (2::real) powi e"
  by (simp add: power_int_def)

lemma two_powr_int: "(2::real) powr real_of_int k = 2 powi k"
  by (simp add: powr_real_of_int')

lemma two_powr_int_Suc: "(2::real) powr (real_of_int k + 1) = 2 powi (k + 1)"
  using two_powr_int [of "k + 1"] by simp

lemma binade:
  assumes "x \<noteq> 0"
  shows "2 powi \<lfloor>log 2 \<bar>x\<bar>\<rfloor> \<le> \<bar>x\<bar>" and "\<bar>x\<bar> < 2 powi (\<lfloor>log 2 \<bar>x\<bar>\<rfloor> + 1)"
proof -
  have pos: "0 < \<bar>x\<bar>" using assms by simp
  have "2 powr (of_int \<lfloor>log 2 \<bar>x\<bar>\<rfloor>) \<le> \<bar>x\<bar>
      \<and> \<bar>x\<bar> < 2 powr (of_int \<lfloor>log 2 \<bar>x\<bar>\<rfloor> + 1)"
    using floor_log_eq_powr_iff [OF pos, of 2 "\<lfloor>log 2 \<bar>x\<bar>\<rfloor>"] by simp
  then show "2 powi \<lfloor>log 2 \<bar>x\<bar>\<rfloor> \<le> \<bar>x\<bar>" and "\<bar>x\<bar> < 2 powi (\<lfloor>log 2 \<bar>x\<bar>\<rfloor> + 1)"
    unfolding two_powr_int two_powr_int_Suc by simp_all
qed


lemma floor_log2_mono:
  assumes "x \<noteq> 0" and "\<bar>x\<bar> \<le> \<bar>y\<bar>"
  shows "\<lfloor>log 2 \<bar>x\<bar>\<rfloor> \<le> \<lfloor>log 2 \<bar>y\<bar>\<rfloor>"
proof -
  have "0 < \<bar>x\<bar>" using assms by simp
  then have "log 2 \<bar>x\<bar> \<le> log 2 \<bar>y\<bar>" using assms by simp
  then show ?thesis by (rule floor_mono)
qed

lemma ulp_exp_minus [simp]: "ulp_exp (- x) = ulp_exp x"
  by (simp add: ulp_exp_def)

lemma ulp_exp_mono: "x \<noteq> 0 \<Longrightarrow> \<bar>x\<bar> \<le> \<bar>y\<bar> \<Longrightarrow> ulp_exp x \<le> ulp_exp y"
  using floor_log2_mono [of x y] by (simp add: ulp_exp_def)

lemma ulp_exp_ge: "- 1074 \<le> ulp_exp x"
  by (simp add: ulp_exp_def)

lemma fl_zero [simp]: "fl 0 = 0"
  by (simp add: fl_def py_round_def)

lemma fl_minus: "fl (- x) = - fl x"
  by (simp add: fl_def py_round_minus)

lemma fl_nonneg: "0 \<le> x \<Longrightarrow> 0 \<le> fl x"
proof -
  assume "0 \<le> x"
  then have "0 \<le> x / 2 powi ulp_exp x" by simp
  then have "py_round 0 \<le> py_round (x / 2 powi ulp_exp x)" by (rule py_round_mono)
  then have "0 \<le> py_round (x / 2 powi ulp_exp x)" using py_round_of_int [of 0] by simp
  then show ?thesis by (simp add: fl_def)
qed

text \<open>Below the scaled bound: an integer number of units bounds the rounded quotient.\<close>

lemma fl_le_grid:
  assumes "x \<le> of_int k * 2 powi ulp_exp x"
  shows "fl x \<le> of_int k * 2 powi ulp_exp x"
proof -
  have "x / 2 powi ulp_exp x \<le> of_int k"
    using assms by (simp add: field_simps)
  then have "py_round (x / 2 powi ulp_exp x) \<le> py_round (of_int k)" by (rule py_round_mono)
  then have "py_round (x / 2 powi ulp_exp x) \<le> k" by (simp add: py_round_of_int)
  then have "(of_int (py_round (x / 2 powi ulp_exp x)) :: real) \<le> of_int k" by simp
  then show ?thesis unfolding fl_def by (simp add: mult_right_mono)
qed

lemma fl_ge_grid:
  assumes "of_int k * 2 powi ulp_exp x \<le> x"
  shows "of_int k * 2 powi ulp_exp x \<le> fl x"
proof -
  have "of_int k \<le> x / 2 powi ulp_exp x"
    using assms by (simp add: field_simps)
  then have "py_round (of_int k) \<le> py_round (x / 2 powi ulp_exp x)" by (rule py_round_mono)
  then have "k \<le> py_round (x / 2 powi ulp_exp x)" by (simp add: py_round_of_int)
  then have "(of_int k :: real) \<le> of_int (py_round (x / 2 powi ulp_exp x))" by simp
  then show ?thesis unfolding fl_def by (simp add: mult_right_mono)
qed

lemma two_powi_grid:
  assumes "e \<le> E"
  shows "(2::real) powi E = of_int (2 ^ nat (E - e)) * 2 powi e"
proof -
  have "(2::real) powi E = 2 powi (E - e) * 2 powi e"
    by (simp flip: power_int_add)
  also have "(2::real) powi (E - e) = 2 ^ nat (E - e)"
    using assms by (simp add: power_int_def)
  finally show ?thesis by simp
qed

lemma two_powi_less_iff: "(2::real) powi a < 2 powi b \<longleftrightarrow> a < b"
  unfolding two_powr_int [symmetric] by simp

lemma two_powi_le_iff: "(2::real) powi a \<le> 2 powi b \<longleftrightarrow> a \<le> b"
  unfolding two_powr_int [symmetric] by simp

lemma ulp_exp_normal:
  assumes "ulp_exp x < ulp_exp y"
  shows "ulp_exp y = \<lfloor>log 2 \<bar>y\<bar>\<rfloor> - 52" and "ulp_exp x + 52 < \<lfloor>log 2 \<bar>y\<bar>\<rfloor>"
    and "\<lfloor>log 2 \<bar>x\<bar>\<rfloor> < \<lfloor>log 2 \<bar>y\<bar>\<rfloor>"
proof -
  define a where "a = \<lfloor>log 2 \<bar>x\<bar>\<rfloor>"
  define b where "b = \<lfloor>log 2 \<bar>y\<bar>\<rfloor>"
  have "max a (- 1022) - 52 < max b (- 1022) - 52"
    using assms unfolding ulp_exp_def a_def b_def .
  then have "max b (- 1022) - 52 = b - 52 \<and> max a (- 1022) - 52 + 52 < b \<and> a < b"
    by linarith
  then show "ulp_exp y = \<lfloor>log 2 \<bar>y\<bar>\<rfloor> - 52" and "ulp_exp x + 52 < \<lfloor>log 2 \<bar>y\<bar>\<rfloor>"
    and "\<lfloor>log 2 \<bar>x\<bar>\<rfloor> < \<lfloor>log 2 \<bar>y\<bar>\<rfloor>"
    unfolding ulp_exp_def a_def b_def by simp_all
qed

lemma fl_mono_pos:
  assumes "0 < x" and "x \<le> y"
  shows "fl x \<le> fl y"
proof -
  have xy: "x \<noteq> 0" "\<bar>x\<bar> \<le> \<bar>y\<bar>" "y \<noteq> 0" using assms by auto
  have le: "ulp_exp x \<le> ulp_exp y" using ulp_exp_mono [OF xy(1,2)] .
  show ?thesis
  proof (cases "ulp_exp x = ulp_exp y")
    case True
    have "x / 2 powi ulp_exp y \<le> y / 2 powi ulp_exp y"
      using assms by (simp add: divide_right_mono)
    then have "py_round (x / 2 powi ulp_exp y) \<le> py_round (y / 2 powi ulp_exp y)"
      by (rule py_round_mono)
    then have "(of_int (py_round (x / 2 powi ulp_exp y)) :: real)
                 \<le> of_int (py_round (y / 2 powi ulp_exp y))" by simp
    then show ?thesis unfolding fl_def True by (simp add: mult_right_mono)
  next
    case False
    then have lt: "ulp_exp x < ulp_exp y" using le by simp
    define E where "E = \<lfloor>log 2 \<bar>y\<bar>\<rfloor>"
    have ey: "ulp_exp y = E - 52" and ex: "ulp_exp x + 52 < E" and EE: "\<lfloor>log 2 \<bar>x\<bar>\<rfloor> < E"
      using ulp_exp_normal [OF lt] by (simp_all add: E_def)
    have "\<bar>x\<bar> < 2 powi (\<lfloor>log 2 \<bar>x\<bar>\<rfloor> + 1)" using binade(2) [OF xy(1)] .
    also have "\<dots> \<le> 2 powi E" using EE by (intro power_int_increasing) simp_all
    finally have xE: "x \<le> 2 powi E" using assms by simp
    have Ey: "2 powi E \<le> y" using binade(1) [OF xy(3)] assms by (simp add: E_def)
    have gx: "(2::real) powi E = of_int (2 ^ nat (E - ulp_exp x)) * 2 powi ulp_exp x"
      by (rule two_powi_grid) (use ex in simp)
    have gy: "(2::real) powi E = of_int (2 ^ nat (E - ulp_exp y)) * 2 powi ulp_exp y"
      by (rule two_powi_grid) (use ey in simp)
    have "fl x \<le> 2 powi E"
      using fl_le_grid [of x "2 ^ nat (E - ulp_exp x)"] xE gx by simp
    moreover have "2 powi E \<le> fl y"
      using fl_ge_grid [of "2 ^ nat (E - ulp_exp y)" y] Ey gy by simp
    ultimately show ?thesis by linarith
  qed
qed

lemma fl_nonpos: "x \<le> 0 \<Longrightarrow> fl x \<le> 0"
  using fl_nonneg [of "- x"] by (simp add: fl_minus)

lemma fl_mono:
  assumes "x \<le> y"
  shows "fl x \<le> fl y"
proof -
  consider "0 < x" | "x \<le> 0" "0 \<le> y" | "y < 0" by linarith
  then show ?thesis
  proof cases
    case 1
    then show ?thesis using assms by (rule fl_mono_pos)
  next
    case 2
    then show ?thesis using fl_nonpos [of x] fl_nonneg [of y] by linarith
  next
    case 3
    then have "fl (- y) \<le> fl (- x)" using assms by (intro fl_mono_pos) simp_all
    then show ?thesis by (simp add: fl_minus)
  qed
qed

text \<open>A double is a fixed point of the rounding.\<close>

lemma fl_exact:
  assumes x: "x = of_int m * 2 powi e" and m: "\<bar>m\<bar> < 2 ^ 53" and e: "- 1074 \<le> e"
  shows "fl x = x"
proof (cases "m = 0")
  case True
  then show ?thesis using x by simp
next
  case False
  then have x0: "x \<noteq> 0" using x by simp
  define E where "E = \<lfloor>log 2 \<bar>x\<bar>\<rfloor>"
  have "\<bar>x\<bar> = of_int \<bar>m\<bar> * 2 powi e" using x by (simp add: abs_mult)
  also have "\<dots> < 2 ^ 53 * 2 powi e"
  proof -
    have "(of_int \<bar>m\<bar> :: real) < of_int (2 ^ 53)" using m by (simp only: of_int_less_iff)
    then show ?thesis by (simp add: mult_strict_right_mono)
  qed
  also have "\<dots> = 2 powi (53 + e)" by (simp add: power_int_add)
  finally have up: "\<bar>x\<bar> < 2 powi (53 + e)" .
  have "2 powi E \<le> \<bar>x\<bar>" using binade(1) [OF x0] by (simp add: E_def)
  then have "(2::real) powi E < 2 powi (53 + e)" using up by linarith
  then have "E < 53 + e" by (simp only: two_powi_less_iff)
  then have le: "ulp_exp x \<le> e" using e by (simp add: ulp_exp_def E_def)
  have "x / 2 powi ulp_exp x = of_int m * (2 powi e / 2 powi ulp_exp x)"
    using x by simp
  also have "2 powi e / (2::real) powi ulp_exp x = 2 powi (e - ulp_exp x)"
    by (simp add: power_int_diff)
  also have "\<dots> = of_int (2 ^ nat (e - ulp_exp x))" using le by (simp add: power_int_def)
  finally have q: "x / 2 powi ulp_exp x = of_int (m * 2 ^ nat (e - ulp_exp x))" by simp
  have "fl x = of_int (m * 2 ^ nat (e - ulp_exp x)) * 2 powi ulp_exp x"
    unfolding fl_def q py_round_of_int ..
  also have "\<dots> = x / 2 powi ulp_exp x * 2 powi ulp_exp x" by (simp only: q)
  also have "\<dots> = x" by simp
  finally show ?thesis .
qed

lemma fl_of_int: "\<bar>m\<bar> < 2 ^ 53 \<Longrightarrow> fl (of_int m) = of_int m"
  using fl_exact [of "of_int m" m 0] by simp

lemma fl_two_powi: "- 1074 \<le> e \<Longrightarrow> fl (2 powi e) = 2 powi e"
  using fl_exact [of "2 powi e" 1 e] by simp

lemma fl_quotient_bound:
  assumes "x \<noteq> 0"
  shows "\<bar>x\<bar> / 2 powi ulp_exp x < 2 ^ 53"
proof -
  define E where "E = \<lfloor>log 2 \<bar>x\<bar>\<rfloor>"
  have le: "E + 1 - ulp_exp x \<le> 53" by (simp add: ulp_exp_def E_def)
  have "\<bar>x\<bar> / 2 powi ulp_exp x < 2 powi (E + 1) / 2 powi ulp_exp x"
    using binade(2) [OF assms] by (simp add: E_def divide_strict_right_mono)
  also have "\<dots> = 2 powi (E + 1 - ulp_exp x)" by (simp add: power_int_diff)
  also have "\<dots> \<le> 2 powi 53" using le by (intro power_int_increasing) simp_all
  finally show ?thesis by simp
qed

lemma fl_idem: "fl (fl x) = fl x"
proof (cases "x = 0")
  case True
  then show ?thesis by simp
next
  case False
  define k where "k = py_round (x / 2 powi ulp_exp x)"
  have flx: "fl x = of_int k * 2 powi ulp_exp x" by (simp add: fl_def k_def)
  have "\<bar>x / 2 powi ulp_exp x\<bar> = \<bar>x\<bar> / 2 powi ulp_exp x" by (simp add: abs_divide)
  then have q: "\<bar>x / 2 powi ulp_exp x\<bar> < 2 ^ 53"
    using fl_quotient_bound [OF False] by (simp only:)
  have q1: "x / 2 powi ulp_exp x \<le> of_int (2 ^ 53)"
    and q2: "of_int (- (2 ^ 53)) \<le> x / 2 powi ulp_exp x"
    using q unfolding abs_less_iff by simp_all
  have "py_round (x / 2 powi ulp_exp x) \<le> py_round (of_int (2 ^ 53))"
    using q1 by (rule py_round_mono)
  moreover have "py_round (of_int (- (2 ^ 53))) \<le> py_round (x / 2 powi ulp_exp x)"
    using q2 by (rule py_round_mono)
  ultimately have kb: "\<bar>k\<bar> \<le> 2 ^ 53" unfolding py_round_of_int k_def by simp
  consider "\<bar>k\<bar> < 2 ^ 53" | "k = 2 ^ 53" | "k = - (2 ^ 53)" using kb by linarith
  then show ?thesis
  proof cases
    case 1
    then show ?thesis using fl_exact [OF flx _ ulp_exp_ge] by simp
  next
    case 2
    then have "fl x = 2 powi (53 + ulp_exp x)" using flx by (simp add: power_int_add)
    then show ?thesis using fl_two_powi [of "53 + ulp_exp x"] ulp_exp_ge [of x] by simp
  next
    case 3
    then have "fl x = - (2 powi (53 + ulp_exp x))" using flx by (simp add: power_int_add)
    then show ?thesis
      using fl_two_powi [of "53 + ulp_exp x"] ulp_exp_ge [of x] by (simp add: fl_minus)
  qed
qed


text \<open>The relative error of one rounding in the normal range.\<close>

lemma fl_error:
  assumes "2 powi (- 1022) \<le> \<bar>x\<bar>"
  shows "\<bar>fl x - x\<bar> \<le> \<bar>x\<bar> / 2 ^ 53" and "\<bar>fl x - x\<bar> \<le> \<bar>fl x\<bar> / 2 ^ 53"
proof -
  have x0: "x \<noteq> 0" using assms two_powi_pos [of "- 1022"] by auto
  define E where "E = \<lfloor>log 2 \<bar>x\<bar>\<rfloor>"
  have "(2::real) powi (- 1022) < 2 powi (E + 1)"
    using assms binade(2) [OF x0] unfolding E_def by linarith
  then have "- 1022 < E + 1" by (simp only: two_powi_less_iff)
  then have En: "- 1022 \<le> E" by simp
  then have ex: "ulp_exp x = E - 52" by (simp add: ulp_exp_def E_def)
  have lo: "2 powi E \<le> \<bar>x\<bar>" using binade(1) [OF x0] by (simp add: E_def)
  have "fl x - x = (of_int (py_round (x / 2 powi ulp_exp x)) - x / 2 powi ulp_exp x)
                     * 2 powi ulp_exp x"
    by (simp add: fl_def algebra_simps)
  then have "\<bar>fl x - x\<bar> = \<bar>of_int (py_round (x / 2 powi ulp_exp x)) - x / 2 powi ulp_exp x\<bar>
                     * 2 powi ulp_exp x"
    by (simp add: abs_mult)
  also have "\<dots> \<le> 1 / 2 * 2 powi ulp_exp x"
    by (intro mult_right_mono py_round_error) simp
  also have "\<dots> = 2 powi E / 2 ^ 53" unfolding ex by (simp add: power_int_diff)
  finally have err: "\<bar>fl x - x\<bar> \<le> 2 powi E / 2 ^ 53" .
  show "\<bar>fl x - x\<bar> \<le> \<bar>x\<bar> / 2 ^ 53"
    using err lo by (simp add: field_simps)
  have "fl (2 powi E) \<le> fl \<bar>x\<bar>" using lo by (rule fl_mono)
  moreover have "fl \<bar>x\<bar> = \<bar>fl x\<bar>"
    using fl_nonneg [of x] fl_nonpos [of x] by (cases "0 \<le> x") (simp_all add: fl_minus)
  ultimately have "2 powi E \<le> \<bar>fl x\<bar>" using fl_two_powi [of E] En by simp
  then show "\<bar>fl x - x\<bar> \<le> \<bar>fl x\<bar> / 2 ^ 53"
    using err by (simp add: field_simps)
qed

lemma fl_one [simp]: "fl 1 = 1"
  using fl_of_int [of 1] by simp

lemma fl_abs: "fl \<bar>x\<bar> = \<bar>fl x\<bar>"
  using fl_nonneg [of x] fl_nonpos [of x] by (cases "0 \<le> x") (simp_all add: fl_minus)

lemma fl_abs_le:
  assumes "\<bar>x\<bar> \<le> y" and "fl y = y"
  shows "\<bar>fl x\<bar> \<le> y"
  using fl_mono [OF assms(1)] assms(2) by (simp add: fl_abs)

lemma fl_bounded:
  assumes "\<bar>x\<bar> \<le> 2 ^ n"
  shows "\<bar>fl x\<bar> \<le> 2 ^ n"
proof (rule fl_abs_le [OF assms])
  have "fl (2 powi int n) = 2 powi int n" by (rule fl_two_powi) simp
  then show "fl (2 ^ n) = 2 ^ n" by simp
qed

lemma binary64_Inr: "binary64 x = Inr y \<longleftrightarrow> y = fl x \<and> \<bar>fl x\<bar> < 2 ^ 1024"
  by (auto simp: binary64_def)

lemma binary64_ok:
  assumes "\<bar>x\<bar> \<le> 2 ^ n" and "n < 1024"
  shows "binary64 x = Inr (fl x)"
proof -
  have "\<bar>fl x\<bar> \<le> 2 ^ n" using assms(1) by (rule fl_bounded)
  also have "(2::real) ^ n < 2 ^ 1024"
    using assms(2) by (intro power_strict_increasing) simp_all
  finally have "\<not> 2 ^ 1024 \<le> \<bar>fl x\<bar>" by (simp only: not_le)
  then show ?thesis unfolding binary64_def by (simp only: if_False)
qed

lemma binary64_zero [simp]: "binary64 0 = Inr 0"
  by (simp add: binary64_def)

section \<open>Properties of the temporal frame-jitter transform\<close>
















section \<open>Properties of the peak normalisation\<close>

lemma peak_ge: "x \<in> set a \<Longrightarrow> \<bar>x\<bar> \<le> peak a"
  by (simp add: peak_def)

lemma peak_attained: "a \<noteq> [] \<Longrightarrow> \<exists>x \<in> set a. \<bar>x\<bar> = peak a"
proof -
  assume "a \<noteq> []"
  then have "Max (abs ` set a) \<in> abs ` set a" by (intro Max_in) simp_all
  then show ?thesis by (auto simp: peak_def)
qed

lemma peak_nonneg: "a \<noteq> [] \<Longrightarrow> 0 \<le> peak a"
  using peak_attained [of a] by force

lemma peak_zero_iff: "a \<noteq> [] \<Longrightarrow> peak a = 0 \<longleftrightarrow> (\<forall>x \<in> set a. x = 0)"
proof
  assume a: "a \<noteq> []" and "peak a = 0"
  then show "\<forall>x \<in> set a. x = 0" using peak_ge [of _ a] by fastforce
next
  assume a: "a \<noteq> []" and z: "\<forall>x \<in> set a. x = 0"
  then show "peak a = 0" using peak_attained [OF a] by auto
qed

lemma peak_scaled:
  assumes a: "a \<noteq> []" and m: "0 < m"
  shows "peak (map (\<lambda>v. v / m) a) = peak a / m"
  unfolding peak_def [of "map (\<lambda>v. v / m) a"]
proof (rule Max_eqI)
  show "finite (set (map abs (map (\<lambda>v. v / m) a)))" by simp
next
  fix y assume "y \<in> set (map abs (map (\<lambda>v. v / m) a))"
  then obtain v where v: "v \<in> set a" and y: "y = \<bar>v / m\<bar>" by auto
  have "\<bar>v\<bar> / m \<le> peak a / m" using peak_ge [OF v] m by (simp add: divide_right_mono)
  then show "y \<le> peak a / m" using y m by simp
next
  obtain x where x: "x \<in> set a" and px: "\<bar>x\<bar> = peak a" using peak_attained [OF a] by blast
  have "\<bar>x / m\<bar> = peak a / m" using px m by simp
  then show "peak a / m \<in> set (map abs (map (\<lambda>v. v / m) a))"
    using x by (auto simp: image_iff intro!: bexI [of _ x])
qed

lemma normalize_peak_result:
  assumes "normalize_peak x = Inr out"
  shows "x \<noteq> [] \<and> length out = length x \<and> peak_normalized out
         \<and> (peak x = 0 \<longrightarrow> out = x) \<and> (0 < peak x \<longrightarrow> out = map (\<lambda>v. v / peak x) x)"
proof -
  have ne: "x \<noteq> []" using assms by (auto simp: normalize_peak_def np_max_abs_def and_then_def split: if_splits)
  have out: "out = (if 0 < peak x then map (\<lambda>v. v / peak x) x else x)"
    using assms ne by (auto simp: normalize_peak_def np_max_abs_def and_then_def)
  show ?thesis
  proof (cases "0 < peak x")
    case True
    then have o: "out = map (\<lambda>v. v / peak x) x" using out by simp
    have pk: "peak out = 1" using peak_scaled [OF ne True] True by (simp add: o)
    have "\<forall>v \<in> set out. \<bar>v\<bar> \<le> 1"
    proof
      fix v assume "v \<in> set out"
      then have "\<bar>v\<bar> \<le> peak out" by (rule peak_ge)
      then show "\<bar>v\<bar> \<le> 1" using pk by simp
    qed
    then show ?thesis using ne o pk True by (simp add: peak_normalized_def)
  next
    case False
    then have z: "peak x = 0" using peak_nonneg [OF ne] by simp
    then have "\<forall>v \<in> set x. v = 0" using peak_zero_iff [OF ne] by simp
    then show ?thesis using ne out False z by (auto simp: peak_normalized_def)
  qed
qed

lemma normalize_peak_silent: "x \<noteq> [] \<Longrightarrow> peak x = 0 \<Longrightarrow> normalize_peak x = Inr x"
  by (simp add: normalize_peak_def np_max_abs_def and_then_def)


lemma and_then_Inr: "and_then r f = Inr y \<Longrightarrow> \<exists>x. r = Inr x \<and> f x = Inr y"
  by (cases r) (simp_all add: and_then_def)

lemma spectral_blend_normalized:
  assumes "add_noise_in_frequency_domain stft istft signal noise_level g = Inr (out, g')"
  shows "\<exists>buf. normalize_peak buf = Inr out"
  using assms
  by (auto simp: add_noise_in_frequency_domain_def Let_def split: prod.splits
      dest!: and_then_Inr)

lemma phase_jitter_normalized:
  assumes "add_phase_jitter stft istft signal noise_level g = Inr (out, g')"
  shows "\<exists>buf. normalize_peak buf = Inr out"
  using assms
  by (auto simp: add_phase_jitter_def Let_def split: prod.splits dest!: and_then_Inr)

lemma time_jitter_normalized:
  assumes "add_time_domain_jitter signal noise_level sr g = Inr (out, g')"
  shows "\<exists>buf. normalize_peak buf = Inr out"
  using assms
  by (auto simp: add_time_domain_jitter_def Let_def split: prod.splits if_splits
      dest!: and_then_Inr)

lemma np_array_Inr:
  "np_array xs = Inr ys \<Longrightarrow> ys = map fl xs \<and> (\<forall>x \<in> set xs. \<bar>fl x\<bar> < 2 ^ 1024)"
proof (induction xs arbitrary: ys)
  case Nil
  then show ?case by simp
next
  case (Cons x xs)
  from Cons.prems obtain y ys' where y: "binary64 x = Inr y" and r: "np_array xs = Inr ys'"
    and e: "ys = y # ys'"
    by (auto dest!: and_then_Inr)
  show ?case using Cons.IH [OF r] y e by (simp add: binary64_Inr)
qed

lemma np_array_length: "np_array xs = Inr ys \<Longrightarrow> length ys = length xs"
  using np_array_Inr by fastforce

lemma scaled_noise_length:
  "scaled_noise order signal noise ratio = Inr scaled \<Longrightarrow> length scaled = length noise"
  by (auto simp: scaled_noise_def Let_def dest!: and_then_Inr np_array_length)

lemma noisy_signal_Inr:
  assumes "noisy_signal order signal desired_snr_db g = Inr (noisy, g')"
  shows "\<exists>noise ratio scaled.
           powerlaw_psd_gaussian (length signal) g = Inr (noise, g')
         \<and> py_pow10 (fl (desired_snr_db / 10)) = Inr ratio
         \<and> scaled_noise order signal noise ratio = Inr scaled
         \<and> np_array (map2 (+) signal scaled) = Inr noisy"
  using assms by (auto simp: noisy_signal_def dest!: and_then_Inr)

lemma powerlaw_psd_gaussian_Inr:
  "powerlaw_psd_gaussian n g = Inr (noise, g') \<longleftrightarrow>
     2 \<le> n \<and> noise = map g [0..<n] \<and> g' = advance n g"
  by (auto simp: powerlaw_psd_gaussian_def)

lemma noisy_signal_shape:
  assumes "noisy_signal order signal desired_snr_db g = Inr (noisy, g')"
  shows "length noisy = length signal" and "2 \<le> length signal"
    and "g' = advance (length signal) g"
proof -
  obtain noise ratio scaled where
    n: "powerlaw_psd_gaussian (length signal) g = Inr (noise, g')"
    and s: "scaled_noise order signal noise ratio = Inr scaled"
    and a: "np_array (map2 (+) signal scaled) = Inr noisy"
    using noisy_signal_Inr [OF assms] by blast
  have ln: "length noise = length signal" using n by (simp add: powerlaw_psd_gaussian_Inr)
  show "2 \<le> length signal" and "g' = advance (length signal) g"
    using n by (simp_all add: powerlaw_psd_gaussian_Inr)
  show "length noisy = length signal"
    using np_array_length [OF a] scaled_noise_length [OF s] ln by simp
qed

text \<open>The division of an array by its peak, in doubles: the peak becomes exactly 1.\<close>

lemma peak_divided:
  assumes ne: "a \<noteq> []" and pos: "0 < peak a"
  shows "peak (map (\<lambda>x. fl (x / peak a)) a) = 1"
proof -
  obtain x where x: "x \<in> set a" "\<bar>x\<bar> = peak a" using peak_attained [OF ne] by blast
  have one: "\<bar>fl (x / peak a)\<bar> = 1"
  proof (cases "0 \<le> x")
    case True
    then have "x / peak a = 1" using x pos by simp
    then show ?thesis by simp
  next
    case False
    then have "x / peak a = - 1" using x pos by (simp add: field_simps)
    then show ?thesis by (simp add: fl_minus)
  qed
  have le: "\<bar>fl (y / peak a)\<bar> \<le> 1" if "y \<in> set a" for y
  proof (rule fl_abs_le)
    have "\<bar>y\<bar> \<le> peak a" using that by (rule peak_ge)
    then show "\<bar>y / peak a\<bar> \<le> 1" using pos by (simp add: field_simps)
    show "fl 1 = 1" by simp
  qed
  show ?thesis
    unfolding peak_def
  proof (rule Max_eqI)
    show "finite (set (map abs (map (\<lambda>x. fl (x / Max (set (map abs a)))) a)))" by simp
    show "y \<le> 1" if "y \<in> set (map abs (map (\<lambda>x. fl (x / Max (set (map abs a)))) a))" for y
      using that le unfolding peak_def by auto
    show "1 \<in> set (map abs (map (\<lambda>x. fl (x / Max (set (map abs a)))) a))"
      using x(1) one unfolding peak_def by force
  qed
qed

lemma snr_output_cases:
  assumes "add_noise_with_snr order signal desired_snr_db g = Inr (out, g')"
  shows "\<exists>noisy. noisy_signal order signal desired_snr_db g = Inr (noisy, g')
           \<and> out = (if 1 < peak noisy then map (\<lambda>x. fl (x / peak noisy)) noisy else noisy)"
  using assms
  by (auto simp: add_noise_with_snr_def Let_def split: prod.splits if_splits
      dest!: and_then_Inr)

text \<open>Two runs of \<open>add_noise_with_snr\<close> in which every operation is exact.\<close>

lemma fl_values:
  "fl (625 / 1024) = 625 / 1024" "fl (625 / 2048) = 625 / 2048" "fl (1 / 32768) = 1 / 32768"
  "fl (1 / 4) = 1 / 4" "fl (1 / 8) = 1 / 8" "fl (1 / 4096) = 1 / 4096" "fl (1 / 64) = 1 / 64"
  "fl (1 / 128) = 1 / 128" "fl (25 / 32) = 25 / 32" "fl (101 / 128) = 101 / 128"
  "fl 4 = 4" "fl 10000 = 10000" "fl 2 = 2" "fl 40 = 40" "fl (1 / 2) = 1 / 2"
  using fl_exact [of "625 / 1024" 625 "- 10"] fl_exact [of "625 / 2048" 625 "- 11"]
    fl_exact [of "1 / 32768" 1 "- 15"] fl_exact [of "1 / 4" 1 "- 2"] fl_exact [of "1 / 8" 1 "- 3"]
    fl_exact [of "1 / 4096" 1 "- 12"] fl_exact [of "1 / 64" 1 "- 6"]
    fl_exact [of "1 / 128" 1 "- 7"] fl_exact [of "25 / 32" 25 "- 5"]
    fl_exact [of "101 / 128" 101 "- 7"] fl_of_int [of 4] fl_of_int [of 10000] fl_of_int [of 2]
    fl_of_int [of 40] fl_exact [of "1 / 2" 1 "- 1"]
  by (simp_all add: power_int_minus)

lemma pow10_four: "py_pow10 4 = Inr 10000"
  by (simp add: py_pow10_def fl_values)

lemma power_quiet_signal: "calculate_power in_sequence [25 / 32, 0] = Inr (625 / 2048)"
  by (simp add: calculate_power_def and_then_def binary64_def fl_values numeral_2_eq_2)

lemma power_tapes:
  "calculate_power in_sequence [0, 1 / 2] = Inr (1 / 8)"
  "calculate_power in_sequence [1 / 2, 0] = Inr (1 / 8)"
  by (simp_all add: calculate_power_def and_then_def binary64_def fl_values numeral_2_eq_2)

lemma sqrt_4096th: "sqrt (1 / 4096) = 1 / 64"
  using real_sqrt_abs [of "1 / 64"] by (simp add: power2_eq_square)

lemma snr_run_a:
  "add_noise_with_snr in_sequence [25 / 32, 0] 40 tape_a
     = Inr ([25 / 32, 1 / 128], advance 2 tape_a)"
proof -
  have noise: "powerlaw_psd_gaussian (Suc (Suc 0)) tape_a = Inr ([0, 1 / 2], advance 2 tape_a)"
    by (simp add: powerlaw_psd_gaussian_def numeral_2_eq_2 tape_a_def)
  have sc: "scaled_noise in_sequence [25 / 32, 0] [0, 1 / 2] 10000 = Inr [0, 1 / 128]"
    by (simp add: scaled_noise_def power_quiet_signal power_tapes and_then_def np_divide_def
        binary64_def fl_values sqrt_4096th)
  have pk: "peak [25 / 32, 1 / 128] = 25 / 32" by (simp add: peak_def)
  have "noisy_signal in_sequence [25 / 32, 0] 40 tape_a
          = Inr ([25 / 32, 1 / 128], advance 2 tape_a)"
    by (simp add: noisy_signal_def noise pow10_four sc and_then_def binary64_def fl_values)
  then show ?thesis by (simp add: add_noise_with_snr_def and_then_def pk)
qed

lemma snr_run_b:
  "add_noise_with_snr in_sequence [25 / 32, 0] 40 tape_b
     = Inr ([101 / 128, 0], advance 2 tape_b)"
proof -
  have noise: "powerlaw_psd_gaussian (Suc (Suc 0)) tape_b = Inr ([1 / 2, 0], advance 2 tape_b)"
    by (simp add: powerlaw_psd_gaussian_def numeral_2_eq_2 tape_b_def)
  have sc: "scaled_noise in_sequence [25 / 32, 0] [1 / 2, 0] 10000 = Inr [1 / 128, 0]"
    by (simp add: scaled_noise_def power_quiet_signal power_tapes and_then_def np_divide_def
        binary64_def fl_values sqrt_4096th)
  have pk: "peak [101 / 128, 0] = 101 / 128" by (simp add: peak_def)
  have "noisy_signal in_sequence [25 / 32, 0] 40 tape_b
          = Inr ([101 / 128, 0], advance 2 tape_b)"
    by (simp add: noisy_signal_def noise pow10_four sc and_then_def binary64_def fl_values)
  then show ?thesis by (simp add: add_noise_with_snr_def and_then_def pk)
qed

text \<open>
  C6, as the code has it. A waveform emitted by the spectral transform (either mode) or
  by the temporal transform is peak-normalised: no sample exceeds 1 in magnitude, and
  the peak is exactly 1 unless the waveform is silent; a silent buffer passes through
  the normalisation unchanged, with no division. The SNR injector emits a waveform of
  peak at most 1, but it rescales the sum of signal and noise only when the sum's peak
  exceeds 1: a sum of peak at most 1 is emitted as it is.
\<close>

theorem emitted_peak:
  "(add_noise_in_frequency_domain stft istft signal noise_level g = Inr (out1, g1)
      \<longrightarrow> peak_normalized out1)
   \<and> (add_phase_jitter stft istft signal noise_level g = Inr (out2, g2)
      \<longrightarrow> peak_normalized out2)
   \<and> (add_time_domain_jitter signal noise_level sr g = Inr (out3, g3)
      \<longrightarrow> peak_normalized out3)
   \<and> (x \<noteq> [] \<and> peak x = 0 \<longrightarrow> normalize_peak x = Inr x)
   \<and> (add_noise_with_snr order signal desired_snr_db g = Inr (out4, g4)
      \<longrightarrow> peak out4 \<le> 1
          \<and> (\<exists>noisy. noisy_signal order signal desired_snr_db g = Inr (noisy, g4)
                \<and> (1 < peak noisy \<longrightarrow> peak out4 = 1)
                \<and> (peak noisy \<le> 1 \<longrightarrow> out4 = noisy)))"
proof (intro conjI impI)
  assume "add_noise_in_frequency_domain stft istft signal noise_level g = Inr (out1, g1)"
  then show "peak_normalized out1"
    using spectral_blend_normalized normalize_peak_result by blast
next
  assume "add_phase_jitter stft istft signal noise_level g = Inr (out2, g2)"
  then show "peak_normalized out2"
    using phase_jitter_normalized normalize_peak_result by blast
next
  assume "add_time_domain_jitter signal noise_level sr g = Inr (out3, g3)"
  then show "peak_normalized out3"
    using time_jitter_normalized normalize_peak_result by blast
next
  assume "x \<noteq> [] \<and> peak x = 0"
  then show "normalize_peak x = Inr x" by (simp add: normalize_peak_silent)
next
  assume a: "add_noise_with_snr order signal desired_snr_db g = Inr (out4, g4)"
  obtain noisy where ns: "noisy_signal order signal desired_snr_db g = Inr (noisy, g4)"
    and out: "out4 = (if 1 < peak noisy then map (\<lambda>x. fl (x / peak noisy)) noisy else noisy)"
    using snr_output_cases [OF a] by blast
  have nne: "noisy \<noteq> []" using noisy_signal_shape(1,2) [OF ns] by auto
  have big: "peak out4 = 1" if "1 < peak noisy"
  proof -
    have "0 < peak noisy" using that by simp
    then have "peak (map (\<lambda>x. fl (x / peak noisy)) noisy) = 1" by (rule peak_divided [OF nne])
    then show ?thesis using that out by simp
  qed
  have small: "out4 = noisy" if "peak noisy \<le> 1" using that out by simp
  show "peak out4 \<le> 1"
  proof (cases "1 < peak noisy")
    case True then show ?thesis using big by simp
  next
    case False then show ?thesis using small by simp
  qed
  show "\<exists>noisy. noisy_signal order signal desired_snr_db g = Inr (noisy, g4)
                \<and> (1 < peak noisy \<longrightarrow> peak out4 = 1)
                \<and> (peak noisy \<le> 1 \<longrightarrow> out4 = noisy)"
    using ns big small by blast
qed

text \<open>
  C6 as stated fails for the SNR injector: a non-silent output whose peak is 25/32.
\<close>

theorem snr_peak_below_one_counterexample:
  "add_noise_with_snr in_sequence [25 / 32, 0] 40 tape_a
     = Inr ([25 / 32, 1 / 128], advance 2 tape_a)
   \<and> peak [25 / 32, 1 / 128] = 25 / 32"
  using snr_run_a by (simp add: peak_def)

theorem emitted_peak_witness:
  "add_phase_jitter (\<lambda>s. Inr [[1]]) (\<lambda>D n. Inr (replicate n (1 / 2))) [1 / 4, 1 / 4] (1 / 2)
       (\<lambda>i. 0) = Inr ([1, 1], advance 1 (\<lambda>i. 0))
   \<and> peak_normalized [1, 1]
   \<and> add_noise_in_frequency_domain (\<lambda>s. Inr [[1]]) (\<lambda>D n. Inr (replicate n (1 / 2)))
       [1 / 4, 1 / 4] (1 / 2) (\<lambda>i. 0) = Inr ([1, 1], advance 1 (advance 1 (\<lambda>i. 0)))
   \<and> add_time_domain_jitter (replicate 441 (1 / 2)) 0 44100 (\<lambda>i. 0)
       = Inr (replicate 441 1, advance 1 (\<lambda>i. 0))
   \<and> peak_normalized (replicate 441 1)
   \<and> [0, 0] \<noteq> ([] :: real list) \<and> peak [0, 0] = 0 \<and> normalize_peak [0, 0] = Inr [0, 0]
   \<and> add_noise_with_snr in_sequence [2, 0] 0 (\<lambda>i. if i = 0 then 0 else 2)
       = Inr ([1, 1], advance 2 (\<lambda>i. if i = 0 then 0 else 2))
   \<and> peak [1, 1] \<le> 1"
proof -
  let ?stft = "\<lambda>s :: real list. (Inr [[1]] :: error + spectrogram)"
  let ?istft = "\<lambda>(D :: spectrogram) n. (Inr (replicate n (1 / 2)) :: error + real list)"
  let ?g = "\<lambda>i::nat. if i = 0 then 0 else (2 :: real)"
  have n2: "normalize_peak [1 / 2, 1 / 2] = Inr [1, 1]"
    by (simp add: normalize_peak_def np_max_abs_def peak_def and_then_def)
  have pj: "add_phase_jitter ?stft ?istft [1 / 4, 1 / 4] (1 / 2) (\<lambda>i. 0)
              = Inr ([1, 1], advance 1 (\<lambda>i. 0))"
    by (simp add: add_phase_jitter_def and_then_def Let_def uniform_field_def numeral_2_eq_2 n2)
  have sb: "add_noise_in_frequency_domain ?stft ?istft [1 / 4, 1 / 4] (1 / 2) (\<lambda>i. 0)
              = Inr ([1, 1], advance 1 (advance 1 (\<lambda>i. 0)))"
    by (simp add: add_noise_in_frequency_domain_def and_then_def Let_def uniform_field_def
        np_max_def numeral_2_eq_2 n2)
  have F: "frame_length_samples 44100 = 441"
    by (simp add: frame_length_samples_def py_int_def)
  have m: "max_shift_samples 0 44100 = 0"
    by (simp add: max_shift_samples_def py_int_def)
  have r: "randint 0 1 (\<lambda>i. 0) = Inr (0, advance 1 (\<lambda>i. 0))"
    by (simp add: randint_def frac_def)
  have p: "place_frame (replicate 441 (1 / 2)) 441 0 0 = (replicate 441 (1 / 2), 0, 441)"
    by (simp add: place_frame_def py_slice_def slice_bound_def Let_def)
  have s: "slice_add (replicate 441 0) 0 441 (replicate 441 (1 / 2)) = Inr (replicate 441 (1 / 2))"
    by (simp add: slice_add_def slice_bound_def Let_def)
  have pk: "peak (replicate 441 (1 / 2)) = 1 / 2" by (simp add: peak_def)
  have tj: "add_time_domain_jitter (replicate 441 (1 / 2)) 0 44100 (\<lambda>i. 0)
       = Inr (replicate 441 1, advance 1 (\<lambda>i. 0))"
    by (simp add: add_time_domain_jitter_def F m r p s and_then_def normalize_peak_def
        np_max_abs_def pk)
  have z: "[0, 0] \<noteq> ([] :: real list) \<and> peak [0, 0] = 0" by (simp add: peak_def)
  have noise: "powerlaw_psd_gaussian (Suc (Suc 0)) ?g = Inr ([0, 2], advance 2 ?g)"
    by (simp add: powerlaw_psd_gaussian_def numeral_2_eq_2)
  have p: "calculate_power in_sequence [2, 0] = Inr 2" "calculate_power in_sequence [0, 2] = Inr 2"
    by (simp_all add: calculate_power_def and_then_def binary64_def fl_values numeral_2_eq_2)
  have sc: "scaled_noise in_sequence [2, 0] [0, 2] 1 = Inr [0, 2]"
    by (simp add: scaled_noise_def p and_then_def np_divide_def binary64_def fl_values)
  have pw: "py_pow10 0 = Inr 1" by (simp add: py_pow10_def)
  have pk2: "peak [2, 2] = 2" by (simp add: peak_def)
  have "noisy_signal in_sequence [2, 0] 0 ?g = Inr ([2, 2], advance 2 ?g)"
    by (simp add: noisy_signal_def noise pw sc and_then_def binary64_def fl_values)
  then have snr: "add_noise_with_snr in_sequence [2, 0] 0 ?g = Inr ([1, 1], advance 2 ?g)"
    by (simp add: add_noise_with_snr_def and_then_def pk2)
  have a: "peak_normalized [1, 1]"
    using emitted_peak [of ?stft ?istft "[1 / 4, 1 / 4]" "1 / 2" "\<lambda>i. 0" "[1, 1]"
      "advance 1 (advance 1 (\<lambda>i. 0))" "[1, 1]" "advance 1 (\<lambda>i. 0)"] pj by blast
  have b: "peak_normalized (replicate 441 1)"
    using emitted_peak [of _ _ "replicate 441 (1 / 2)" 0 "\<lambda>i. 0" _ _ _ _ 44100
      "replicate 441 1" "advance 1 (\<lambda>i. 0)"] tj by blast
  have c: "normalize_peak [0, 0] = Inr [0, 0]"
    using emitted_peak [of _ _ _ _ _ _ _ _ _ _ _ _ "[0, 0]"] z by blast
  have d: "peak [1, 1] \<le> 1"
    using emitted_peak [where order = in_sequence and signal = "[2, 0]" and g = ?g
        and desired_snr_db = 0 and ?out4.0 = "[1, 1]" and ?g4.0 = "advance 2 ?g"] snr
    by blast
  show ?thesis using pj sb tj a b c d z snr by simp
qed

section \<open>Properties of the index selection\<close>

lemma advance_advance: "advance a (advance b g) = advance (a + b) g"
  by (simp add: advance_def fun_eq_iff add.assoc)





lemma choice_error:
  "k < 0 \<or> int a < k \<Longrightarrow> choice a k g = Inl ValueError"
  by (auto simp: choice_def)


lemma select_indices_error:
  "k < 0 \<or> int a < k \<Longrightarrow> select_indices a k g = Inl ValueError"
  by (simp add: select_indices_def choice_error and_then_def)









section \<open>Properties of the noise level zero\<close>

lemma unit_draws_shape:
  "map length (fst (unit_draws shape g)) = shape
   \<and> snd (unit_draws shape g) = advance (sum_list shape) g"
proof (induction shape arbitrary: g)
  case Nil
  then show ?case by (simp add: advance_def)
next
  case (Cons n shape)
  have "map length (fst (unit_draws shape (advance n g))) = shape"
    and "snd (unit_draws shape (advance n g)) = advance (sum_list shape) (advance n g)"
    using Cons.IH [of "advance n g"] by simp_all
  then show ?case
    by (simp add: split_beta advance_advance add.commute)
qed

lemma uniform_field_shape:
  "map length (fst (uniform_field low high shape g)) = shape
   \<and> snd (uniform_field low high shape g) = advance (sum_list shape) g"
  using unit_draws_shape [of shape g]
  by (simp add: uniform_field_def split_beta comp_def)

lemma map2_left:
  assumes "length xs = length ys" "\<forall>r \<in> set ys. \<forall>m. f m r = m"
  shows "map2 f xs ys = xs"
  using assms by (induction xs ys rule: list_induct2) simp_all

lemma cellwise_left:
  assumes "map length a = map length b" "\<forall>r \<in> set (concat b). \<forall>m. f m r = m"
  shows "cellwise f a b = a"
  using assms
proof (induction a arbitrary: b)
  case Nil
  then show ?case by (simp add: cellwise_def)
next
  case (Cons row a)
  then obtain brow b' where b: "b = brow # b'" by (cases b) auto
  have l: "length row = length brow" and rest: "map length a = map length b'"
    using Cons.prems(1) b by simp_all
  have c: "\<forall>r \<in> set brow. \<forall>m. f m r = m" and c': "\<forall>r \<in> set (concat b'). \<forall>m. f m r = m"
    using Cons.prems(2) b by simp_all
  have "cellwise f a b' = a" by (rule Cons.IH [OF rest c'])
  then show ?case using map2_left [OF l c] b by (simp add: cellwise_def)
qed

lemma polar_row: "map2 (\<lambda>m p. of_real m * cis p) (map cmod row) (map Arg row) = row"
proof (induction row)
  case Nil
  then show ?case by simp
next
  case (Cons z row)
  have "of_real (cmod z) * cis (Arg z) = z" using rcis_cmod_Arg [of z] by (simp add: rcis_def)
  then show ?case using Cons by simp
qed

lemma cellwise_polar:
  "cellwise (\<lambda>m p. of_real m * cis p) (map (map cmod) D) (map (map Arg) D) = D"
  by (induction D) (simp_all add: cellwise_def polar_row)

lemma spectral_blend_zero:
  "add_noise_in_frequency_domain stft istft signal 0 g =
     and_then (stft signal) (\<lambda>D.
       and_then (np_max (map (map cmod) D)) (\<lambda>max_magnitude.
         and_then (istft D (length signal)) (\<lambda>noisy_signal.
           and_then (normalize_peak noisy_signal) (\<lambda>normalized.
             Inr (normalized, advance (2 * sum_list (map length D)) g)))))"
proof (cases "stft signal")
  case (Inl e)
  then show ?thesis by (simp add: add_noise_in_frequency_domain_def and_then_def)
next
  case (Inr D)
  show ?thesis
  proof (cases "np_max (map (map cmod) D)")
    case (Inl e)
    then show ?thesis using Inr by (simp add: add_noise_in_frequency_domain_def and_then_def)
  next
    case mx: (Inr max_magnitude)
    let ?shape = "map length D"
    let ?g1 = "advance (sum_list ?shape) g"
    have su: "map length (fst (unit_draws ?shape g)) = ?shape"
      and g1: "snd (unit_draws ?shape g) = ?g1"
      using unit_draws_shape [of ?shape g] by simp_all
    have sp: "map length (fst (uniform_field (- pi) pi ?shape ?g1)) = ?shape"
      and g2: "snd (uniform_field (- pi) pi ?shape ?g1) = advance (sum_list ?shape) ?g1"
      using uniform_field_shape [of "- pi" pi ?shape ?g1] by simp_all
    have g2': "snd (uniform_field (- pi) pi ?shape ?g1) = advance (2 * sum_list ?shape) g"
      unfolding g2 by (simp add: advance_advance mult_2)
    have m: "cellwise (\<lambda>m r. (1 - 0) * m + 0 * r) (map (map cmod) D)
               (map (map (\<lambda>v. v * max_magnitude)) (fst (unit_draws ?shape g)))
             = map (map cmod) D"
      by (rule cellwise_left) (simp_all add: su comp_def)
    have p: "cellwise (\<lambda>p r. (1 - 0) * p + 0 * r) (map (map Arg) D)
               (fst (uniform_field (- pi) pi ?shape ?g1)) = map (map Arg) D"
      by (rule cellwise_left) (simp_all add: sp comp_def)
    show ?thesis
      unfolding add_noise_in_frequency_domain_def and_then_def Inr mx sum.case Let_def
        split_beta g1 m p g2' cellwise_polar
      by (rule refl)
  qed
qed

lemma phase_jitter_zero:
  "add_phase_jitter stft istft signal 0 g =
     and_then (stft signal) (\<lambda>D.
       and_then (istft D (length signal)) (\<lambda>noisy_signal.
         and_then (normalize_peak noisy_signal) (\<lambda>normalized.
           Inr (normalized, advance (sum_list (map length D)) g))))"
proof (cases "stft signal")
  case (Inl e)
  then show ?thesis by (simp add: add_phase_jitter_def and_then_def)
next
  case (Inr D)
  let ?shape = "map length D"
  let ?f = "uniform_field (- (pi * 2 * 0)) (pi * 2 * 0) ?shape g"
  have sp: "map length (fst ?f) = ?shape" and g1: "snd ?f = advance (sum_list ?shape) g"
    using uniform_field_shape [of "- (pi * 2 * 0)" "pi * 2 * 0" ?shape g] by simp_all
  have z: "\<forall>r \<in> set (concat (fst ?f)). r = 0"
    by (auto simp: uniform_field_def split_beta)
  have p: "cellwise (+) (map (map Arg) D) (fst ?f) = map (map Arg) D"
    by (rule cellwise_left) (use z sp in \<open>simp_all add: comp_def\<close>)
  show ?thesis
    unfolding add_phase_jitter_def and_then_def Inr sum.case Let_def split_beta p g1
      cellwise_polar
    by (rule refl)
qed

lemma snr_step_target: "snr_noise_step order y 0 g = add_noise_with_snr order y 40 g"
  by (simp add: snr_noise_step_def fl_values)

lemma add_noise_with_snr_consumes:
  "add_noise_with_snr order y snr g = Inr (out, g') \<Longrightarrow> g' = advance (length y) g"
  using snr_output_cases noisy_signal_shape(3) by blast

lemma snr_step_run_a:
  "snr_noise_step in_sequence [25 / 32, 0] 0 tape_a = Inr ([25 / 32, 1 / 128], advance 2 tape_a)"
  by (simp add: snr_step_target snr_run_a)

lemma snr_step_run_b:
  "snr_noise_step in_sequence [25 / 32, 0] 0 tape_b = Inr ([101 / 128, 0], advance 2 tape_b)"
  by (simp add: snr_step_target snr_run_b)

lemma score_step_zero:
  "score_noise_step randomize synthesize clip_duration h pm_original 0 g
     = and_then (normalize_peak (synthesize (objs h pm_original))) (\<lambda>normalized.
         Inr (h, pm_original, clip_audio normalized (py_int (clip_duration * 44100)), g))"
  by (simp add: score_noise_step_def and_then_def)

lemma jitter_step_zero:
  "jitter_noise_step y sr 0 g = and_then (divide_by_peak y) (\<lambda>normalized. Inr (normalized, g))"
  by (simp add: jitter_noise_step_def and_then_def)

lemma divide_by_peak_normalized: "y \<noteq> [] \<Longrightarrow> peak y = 1 \<Longrightarrow> divide_by_peak y = Inr y"
  by (simp add: divide_by_peak_def np_max_abs_def and_then_def)

text \<open>
  C1, as the code has it. At noise level 0 the score drivers and the temporal-jitter
  driver bypass the transform: the generator is returned as it was given and the
  output, the peak-normalised and clipped rendering of the original score or the
  peak-normalised input signal, is the same for every state of the generator. The
  spectral functions, which no driver calls, draw their random fields at noise level 0
  too but give them the weight zero: the generator advances and the waveform does not
  depend on it. The SNR driver has no bypass: 0 percent is the target of 40 dB, and the
  injector consumes one draw per sample.
\<close>

theorem noise_zero_bypass:
  "score_noise_step randomize synthesize clip_duration h pm_original 0 g
     = and_then (normalize_peak (synthesize (objs h pm_original))) (\<lambda>normalized.
         Inr (h, pm_original, clip_audio normalized (py_int (clip_duration * 44100)), g))
   \<and> map_sum id (\<lambda>(h', r, w, g'). (h', r, w))
         (score_noise_step randomize synthesize clip_duration h pm_original 0 g)
       = map_sum id (\<lambda>(h', r, w, g'). (h', r, w))
           (score_noise_step randomize synthesize clip_duration h pm_original 0 g2)
   \<and> jitter_noise_step y sr 0 g
       = and_then (divide_by_peak y) (\<lambda>normalized. Inr (normalized, g))
   \<and> map_sum id fst (jitter_noise_step y sr 0 g) = map_sum id fst (jitter_noise_step y sr 0 g2)
   \<and> (y \<noteq> [] \<and> peak y = 1 \<longrightarrow> jitter_noise_step y sr 0 g = Inr (y, g))
   \<and> add_noise_in_frequency_domain stft istft signal 0 g
       = and_then (stft signal) (\<lambda>D.
           and_then (np_max (map (map cmod) D)) (\<lambda>max_magnitude.
             and_then (istft D (length signal)) (\<lambda>noisy_signal.
               and_then (normalize_peak noisy_signal) (\<lambda>normalized.
                 Inr (normalized, advance (2 * sum_list (map length D)) g)))))
   \<and> map_sum id fst (add_noise_in_frequency_domain stft istft signal 0 g)
       = map_sum id fst (add_noise_in_frequency_domain stft istft signal 0 g2)
   \<and> add_phase_jitter stft istft signal 0 g
       = and_then (stft signal) (\<lambda>D.
           and_then (istft D (length signal)) (\<lambda>noisy_signal.
             and_then (normalize_peak noisy_signal) (\<lambda>normalized.
               Inr (normalized, advance (sum_list (map length D)) g))))
   \<and> map_sum id fst (add_phase_jitter stft istft signal 0 g)
       = map_sum id fst (add_phase_jitter stft istft signal 0 g2)
   \<and> snr_noise_step order y 0 g = add_noise_with_snr order y 40 g
   \<and> (snr_noise_step order y 0 g = Inr (out, g') \<longrightarrow> g' = advance (length y) g)"
proof (intro conjI impI)
  show "score_noise_step randomize synthesize clip_duration h pm_original 0 g
     = and_then (normalize_peak (synthesize (objs h pm_original))) (\<lambda>normalized.
         Inr (h, pm_original, clip_audio normalized (py_int (clip_duration * 44100)), g))"
    by (rule score_step_zero)
  show "map_sum id (\<lambda>(h', r, w, g'). (h', r, w))
         (score_noise_step randomize synthesize clip_duration h pm_original 0 g)
       = map_sum id (\<lambda>(h', r, w, g'). (h', r, w))
           (score_noise_step randomize synthesize clip_duration h pm_original 0 g2)"
    by (simp add: score_step_zero and_then_def split: sum.splits)
  show "jitter_noise_step y sr 0 g
       = and_then (divide_by_peak y) (\<lambda>normalized. Inr (normalized, g))"
    by (rule jitter_step_zero)
  show "map_sum id fst (jitter_noise_step y sr 0 g) = map_sum id fst (jitter_noise_step y sr 0 g2)"
    by (simp add: jitter_step_zero and_then_def split: sum.splits)
  show "jitter_noise_step y sr 0 g = Inr (y, g)" if "y \<noteq> [] \<and> peak y = 1"
    using that by (simp add: jitter_step_zero divide_by_peak_normalized and_then_def)
  show "add_noise_in_frequency_domain stft istft signal 0 g
       = and_then (stft signal) (\<lambda>D.
           and_then (np_max (map (map cmod) D)) (\<lambda>max_magnitude.
             and_then (istft D (length signal)) (\<lambda>noisy_signal.
               and_then (normalize_peak noisy_signal) (\<lambda>normalized.
                 Inr (normalized, advance (2 * sum_list (map length D)) g)))))"
    by (rule spectral_blend_zero)
  show "map_sum id fst (add_noise_in_frequency_domain stft istft signal 0 g)
       = map_sum id fst (add_noise_in_frequency_domain stft istft signal 0 g2)"
    by (simp add: spectral_blend_zero and_then_def split: sum.splits)
  show "add_phase_jitter stft istft signal 0 g
       = and_then (stft signal) (\<lambda>D.
           and_then (istft D (length signal)) (\<lambda>noisy_signal.
             and_then (normalize_peak noisy_signal) (\<lambda>normalized.
               Inr (normalized, advance (sum_list (map length D)) g))))"
    by (rule phase_jitter_zero)
  show "map_sum id fst (add_phase_jitter stft istft signal 0 g)
       = map_sum id fst (add_phase_jitter stft istft signal 0 g2)"
    by (simp add: phase_jitter_zero and_then_def split: sum.splits)
  show "snr_noise_step order y 0 g = add_noise_with_snr order y 40 g" by (rule snr_step_target)
  show "g' = advance (length y) g" if "snr_noise_step order y 0 g = Inr (out, g')"
    using that add_noise_with_snr_consumes by (simp add: snr_step_target)
qed

text \<open>
  C1 as stated fails for the SNR noise injection: at 0 percent two states of the
  generator give two outputs, both different from the input, and the generator has
  advanced.
\<close>

theorem snr_zero_percent_counterexample:
  "snr_noise_step in_sequence [25 / 32, 0] 0 tape_a = Inr ([25 / 32, 1 / 128], advance 2 tape_a)
   \<and> snr_noise_step in_sequence [25 / 32, 0] 0 tape_b = Inr ([101 / 128, 0], advance 2 tape_b)
   \<and> advance 2 tape_a 0 \<noteq> tape_a 0"
  using snr_step_run_a snr_step_run_b by (simp add: advance_def tape_a_def)

theorem noise_zero_bypass_witness:
  "[1, 1 / 2] \<noteq> ([] :: real list) \<and> peak [1, 1 / 2] = 1
   \<and> jitter_noise_step [1, 1 / 2] 44100 0 tape_a = Inr ([1, 1 / 2], tape_a)
   \<and> snr_noise_step in_sequence [25 / 32, 0] 0 tape_a
       = Inr ([25 / 32, 1 / 128], advance 2 tape_a)
   \<and> advance 2 tape_a = advance (length [25 / 32, 0 :: real]) tape_a"
proof -
  have a: "[1, 1 / 2] \<noteq> ([] :: real list) \<and> peak [1, 1 / 2] = 1" by (simp add: peak_def)
  have j: "jitter_noise_step [1, 1 / 2] 44100 0 tape_a = Inr ([1, 1 / 2], tape_a)"
    using noise_zero_bypass [where y = "[1, 1 / 2]" and sr = 44100 and g = tape_a] a by blast
  have s: "advance 2 tape_a = advance (length [25 / 32, 0 :: real]) tape_a"
    using noise_zero_bypass [where y = "[25 / 32, 0]" and g = tape_a and order = in_sequence
        and out = "[25 / 32, 1 / 128]" and g' = "advance 2 tape_a"] snr_step_run_a
    by blast
  show ?thesis using a j s snr_step_run_a by blast
qed

end
